theory Spec2Isabelle
  imports Complex_Main
begin

section \<open>Tensors of rank three\<close>

text \<open>
  The volumes of \<^verbatim>\<open>segmentation/metrics/distance_metrics.py\<close> are torch tensors with three
  spatial axes. A tensor is modelled by its shape and by the entry read at an index; an
  entry is only ever read at an index inside the shape. Indices are integer triples, since
  the code shifts them by one voxel and by kernel offsets. Floating-point entries are
  modelled by exact reals, a boolean tensor by entries of type \<open>bool\<close>.
\<close>

type_synonym vox = "int \<times> int \<times> int"

type_synonym shape3 = "nat \<times> nat \<times> nat"

record 'a tensor =
  shape :: shape3
  val :: "vox \<Rightarrow> 'a"

fun inside :: "shape3 \<Rightarrow> vox \<Rightarrow> bool" where
  "inside (n0, n1, n2) (i, j, k) \<longleftrightarrow>
     0 \<le> i \<and> i < int n0 \<and> 0 \<le> j \<and> j < int n1 \<and> 0 \<le> k \<and> k < int n2"

text \<open>All indices of a shape in row-major order, the order of \<^verbatim>\<open>nonzero\<close> and \<^verbatim>\<open>flatten\<close>.\<close>

fun indices :: "shape3 \<Rightarrow> vox list" where
  "indices (n0, n1, n2) =
     concat (map (\<lambda>i. concat (map (\<lambda>j. map (\<lambda>k. (i, j, k)) [0..int n2 - 1])
       [0..int n1 - 1])) [0..int n0 - 1])"

fun vadd :: "vox \<Rightarrow> vox \<Rightarrow> vox" where
  "vadd (a, b, c) (i, j, k) = (a + i, b + j, c + k)"

fun vsub :: "vox \<Rightarrow> vox \<Rightarrow> vox" where
  "vsub (a, b, c) (i, j, k) = (a - i, b - j, c - k)"

text \<open>The offset of one voxel along axis \<open>i\<close> of the three axes.\<close>

definition axis_step :: "nat \<Rightarrow> vox" where
  "axis_step i = (if i = 0 then (1, 0, 0) else if i = 1 then (0, 1, 0) else (0, 0, 1))"

text \<open>\<^verbatim>\<open>volume > cut\<close>: the boolean tensor of the entries strictly above \<open>cut\<close>.\<close>

definition gt :: "real tensor \<Rightarrow> real \<Rightarrow> bool tensor" where
  "gt volume c = \<lparr>shape = shape volume, val = (\<lambda>p. val volume p > c)\<rparr>"

text \<open>\<^verbatim>\<open>.float()\<close> on a boolean tensor: True is 1, False is 0.\<close>

definition to_float :: "bool tensor \<Rightarrow> real tensor" where
  "to_float m = \<lparr>shape = shape m, val = (\<lambda>p. if val m p then 1 else 0)\<rparr>"

definition zeros_like :: "real tensor \<Rightarrow> real tensor" where
  "zeros_like volume = \<lparr>shape = shape volume, val = (\<lambda>p. 0)\<rparr>"

section \<open>The border of a volume: \<^verbatim>\<open>_get_border\<close>\<close>

text \<open>
  \<^verbatim>\<open>torch.cat([ref, zeros], dim=i)[slices]\<close> with the slice \<^verbatim>\<open>1 : n + 1\<close> along axis
  \<open>i\<close>: the entry at \<open>p\<close> is the entry of \<open>ref\<close> one voxel further along axis \<open>i\<close>, and
  comes from the block of zeros when that voxel is past the last one.
\<close>

definition cat_after :: "nat \<Rightarrow> real tensor \<Rightarrow> real tensor" where
  "cat_after i ref = \<lparr>shape = shape ref,
     val = (\<lambda>p. if inside (shape ref) (vadd p (axis_step i))
                then val ref (vadd p (axis_step i)) else 0)\<rparr>"

text \<open>
  \<^verbatim>\<open>torch.cat([zeros, ref], dim=i)[slices]\<close> with the slice \<^verbatim>\<open>0 : n\<close>: the entry at \<open>p\<close> is
  the entry of \<open>ref\<close> one voxel before along axis \<open>i\<close>, and a zero at the first voxel.
\<close>

definition cat_before :: "nat \<Rightarrow> real tensor \<Rightarrow> real tensor" where
  "cat_before i ref = \<lparr>shape = shape ref,
     val = (\<lambda>p. if inside (shape ref) (vsub p (axis_step i))
                then val ref (vsub p (axis_step i)) else 0)\<rparr>"

text \<open>\<^verbatim>\<open>border[(ref - concat) == 1] = 1\<close>, with \<open>shifted\<close> for the source's \<^verbatim>\<open>concat\<close>.\<close>

definition mark :: "real tensor \<Rightarrow> real tensor \<Rightarrow> real tensor \<Rightarrow> real tensor" where
  "mark ref shifted border =
     border\<lparr>val := (\<lambda>p. if val ref p - val shifted p = 1 then 1 else val border p)\<rparr>"

text \<open>
  \<^verbatim>\<open>_get_border(volume, cut, dim=3)\<close>; the loop over the axes is a fold over
  \<^verbatim>\<open>range(3)\<close>, each round marking against the forward and then the backward neighbour.
\<close>

definition get_border :: "real tensor \<Rightarrow> real \<Rightarrow> real tensor" where
  "get_border volume c =
     (let ref = to_float (gt volume c);
          border = zeros_like volume
      in fold (\<lambda>i border. mark ref (cat_before i ref) (mark ref (cat_after i ref) border))
           [0..<3] border)"

text \<open>The voxels on a face of the grid: first or last along some axis.\<close>

fun on_face :: "shape3 \<Rightarrow> vox \<Rightarrow> bool" where
  "on_face (n0, n1, n2) (i, j, k) \<longleftrightarrow>
     i = 0 \<or> i = int n0 - 1 \<or> j = 0 \<or> j = int n1 - 1 \<or> k = 0 \<or> k = int n2 - 1"

text \<open>A volume of one voxel holding the value 1, used as a concrete input.\<close>

definition single_voxel :: "real tensor" where
  "single_voxel = \<lparr>shape = (1, 1, 1), val = (\<lambda>p. 1)\<rparr>"

section \<open>The distance metric: \<^verbatim>\<open>DistanceMetric\<close>\<close>

text \<open>The state of a \<^verbatim>\<open>DistanceMetric\<close> object, as \<^verbatim>\<open>__init__\<close> leaves it (\<^verbatim>\<open>dim\<close> is 3).\<close>

record DistanceMetric =
  cut :: real
  radius :: nat
  d_max :: real
  distance_map :: "real list"
  distances :: "real list"
  distance_kernels :: "real tensor list"

text \<open>\<^verbatim>\<open>torch.arange(-radius, radius + 1)\<close>.\<close>

definition distance_range :: "nat \<Rightarrow> int list" where
  "distance_range r = [- int r..int r]"

text \<open>
  \<^verbatim>\<open>_get_distance_map\<close>. The three grids of \<^verbatim>\<open>meshgrid\<close>, flattened in row-major order,
  hold at one position the three coordinates of an offset; the offsets come in the order of
  the product list. The map is the flat list of their Euclidean norms, and an entry above
  the radius is overwritten by the radius.
\<close>

definition offsets :: "nat \<Rightarrow> vox list" where
  "offsets r = List.product (distance_range r) (List.product (distance_range r) (distance_range r))"

fun norm_sq :: "vox \<Rightarrow> int" where
  "norm_sq (a, b, c) = a\<^sup>2 + b\<^sup>2 + c\<^sup>2"

definition clip_above :: "real \<Rightarrow> real \<Rightarrow> real" where
  "clip_above r d = (if d > r then r else d)"

definition get_distance_map :: "nat \<Rightarrow> real list" where
  "get_distance_map r = map (\<lambda>v. clip_above (real r) (sqrt (real_of_int (norm_sq v)))) (offsets r)"

text \<open>\<^verbatim>\<open>unique()\<close>: the distinct values in increasing order.\<close>

definition unique :: "real list \<Rightarrow> real list" where
  "unique xs = sort (remdups xs)"

text \<open>
  \<^verbatim>\<open>reshape(1, w, w, w)\<close> of a flat list of length \<open>w\<^sup>3\<close>: the entry at \<open>(a, b, c)\<close> is the
  entry of the list at position \<open>(a w + b) w + c\<close>.
\<close>

definition reshape3 :: "nat \<Rightarrow> 'a list \<Rightarrow> 'a tensor" where
  "reshape3 w xs = \<lparr>shape = (w, w, w),
     val = (\<lambda>(a, b, c). xs ! nat ((a * int w + b) * int w + c))\<rparr>"

text \<open>\<^verbatim>\<open>_get_distance_kernels\<close>: kernel \<open>idx\<close> is 1 where the map holds the \<open>idx\<close>-th distance.\<close>

definition get_distance_kernels :: "nat \<Rightarrow> real list \<Rightarrow> real list \<Rightarrow> real tensor list" where
  "get_distance_kernels r dmap ds =
     map (\<lambda>idx. reshape3 (2 * r + 1) (map (\<lambda>d. if d = ds ! idx then 1 else 0) dmap))
       [0..<length ds]"

text \<open>\<^verbatim>\<open>__init__(cut, radius)\<close>.\<close>

definition init :: "real \<Rightarrow> nat \<Rightarrow> DistanceMetric" where
  "init c r =
     (let dmap = get_distance_map r; ds = unique dmap
      in \<lparr>cut = c, radius = r, d_max = real r, distance_map = dmap, distances = ds,
          distance_kernels = get_distance_kernels r dmap ds\<rparr>)"

text \<open>
  \<^verbatim>\<open>torch.conv3d(y, weight, padding)\<close> for one kernel: the cross-correlation of the input,
  padded with zeros on every side, with the kernel. With a kernel of width \<open>2 r + 1\<close> and
  padding \<open>r\<close> the output has the shape of the input.
\<close>

definition padded :: "real tensor \<Rightarrow> nat \<Rightarrow> vox \<Rightarrow> real" where
  "padded y pad q =
     (let q' = vsub q (int pad, int pad, int pad)
      in if inside (shape y) q' then val y q' else 0)"

definition conv3d :: "real tensor \<Rightarrow> real tensor \<Rightarrow> nat \<Rightarrow> real tensor" where
  "conv3d y weight pad = \<lparr>shape = shape y,
     val = (\<lambda>p. \<Sum>off\<leftarrow>indices (shape weight). val weight off * padded y pad (vadd p off))\<rparr>"

text \<open>\<^verbatim>\<open>kernels[:-1].sum(dim=0, keepdim=True)\<close>: one kernel, the entry-wise sum.\<close>

definition sum_kernels :: "nat \<Rightarrow> real tensor list \<Rightarrow> real tensor" where
  "sum_kernels w ks = \<lparr>shape = (w, w, w), val = (\<lambda>p. \<Sum>k\<leftarrow>ks. val k p)\<rparr>"

text \<open>\<^verbatim>\<open>x.nonzero(as_tuple=True)\<close>: the indices of the true entries, in row-major order.\<close>

definition nonzero :: "bool tensor \<Rightarrow> vox list" where
  "nonzero x = filter (val x) (indices (shape x))"

text \<open>
  \<^verbatim>\<open>_pairwise_distances(x, y, single_kernel)\<close>, for boolean masks \<open>x\<close> and \<open>y\<close> of one shape.
  The result has one row for each true voxel of \<open>x\<close> and one column for each kernel: the
  entry is the distance of the column where the convolution is not zero, and \<^verbatim>\<open>d_max\<close>
  elsewhere.
\<close>

definition pairwise_distances ::
  "DistanceMetric \<Rightarrow> bool tensor \<Rightarrow> bool tensor \<Rightarrow> bool \<Rightarrow> real list list" where
  "pairwise_distances m x y single_kernel =
     (let kernels = (if single_kernel
            then [sum_kernels (2 * radius m + 1) (butlast (distance_kernels m))]
            else distance_kernels m);
          distances_to_y = map (\<lambda>k. conv3d (to_float y) k (radius m)) kernels;
          relevant_distances = map (\<lambda>p. map (\<lambda>ch. val ch p) distances_to_y) (nonzero x)
      in map (\<lambda>row. map (\<lambda>j. if row ! j \<noteq> 0 then distances m ! j else d_max m)
                [0..<length row]) relevant_distances)"

text \<open>\<^verbatim>\<open>.min(dim=1)\<close>: the least entry of each row.\<close>

definition row_min :: "real list \<Rightarrow> real" where
  "row_min row = Min (set row)"

text \<open>
  \<^verbatim>\<open>_get_border\<close> on a boolean tensor: the comparison with the cut 0.5 reads True as 1, and
  the border, made by \<^verbatim>\<open>zeros_like\<close>, is boolean again.
\<close>

definition get_border_mask :: "bool tensor \<Rightarrow> bool tensor" where
  "get_border_mask t = (let b = get_border (to_float t) (1 / 2)
     in \<lparr>shape = shape b, val = (\<lambda>p. val b p \<noteq> 0)\<rparr>)"

text \<open>\<^verbatim>\<open>mask = a.clone(); mask[a * b] = 0\<close>.\<close>

definition clear_overlap :: "bool tensor \<Rightarrow> bool tensor \<Rightarrow> bool tensor" where
  "clear_overlap a b = a\<lparr>val := (\<lambda>p. if val a p \<and> val b p then False else val a p)\<rparr>"

text \<open>\<^verbatim>\<open>.sum()\<close> of a boolean tensor: the number of true entries.\<close>

definition count_true :: "bool tensor \<Rightarrow> nat" where
  "count_true t = length (nonzero t)"

text \<open>
  \<^verbatim>\<open>average_hausdorff_distance(prediction, target)\<close>, for volumes of one shape. The two
  terms of the source are named.
\<close>

definition first_term :: "DistanceMetric \<Rightarrow> real tensor \<Rightarrow> real tensor \<Rightarrow> real" where
  "first_term m prediction target =
     (let prediction = gt prediction (cut m);
          target = gt target (cut m);
          prediction_mask = clear_overlap prediction target;
          target_mask = get_border_mask target
      in if count_true prediction_mask \<noteq> 0
         then sum_list (map row_min (pairwise_distances m prediction_mask target_mask False))
                / real (count_true prediction)
         else 0)"

definition second_term :: "DistanceMetric \<Rightarrow> real tensor \<Rightarrow> real tensor \<Rightarrow> real" where
  "second_term m prediction target =
     (let prediction = gt prediction (cut m);
          target = gt target (cut m);
          prediction_mask = get_border_mask prediction;
          target_mask = clear_overlap target prediction
      in if count_true target_mask \<noteq> 0
         then sum_list (map row_min (pairwise_distances m target_mask prediction_mask False))
                / real (count_true target)
         else 0)"

definition average_hausdorff_distance :: "DistanceMetric \<Rightarrow> real tensor \<Rightarrow> real tensor \<Rightarrow> real" where
  "average_hausdorff_distance m prediction target =
     first_term m prediction target + second_term m prediction target"

text \<open>\<^verbatim>\<open>amount_of_far_points(prediction, target)\<close>.\<close>

definition amount_of_far_points :: "DistanceMetric \<Rightarrow> real tensor \<Rightarrow> real tensor \<Rightarrow> real" where
  "amount_of_far_points m prediction target =
     (let prediction = gt prediction (cut m);
          target = gt target (cut m);
          prediction_mask = clear_overlap prediction target;
          target_mask = get_border_mask target
      in if count_true prediction_mask \<noteq> 0
         then real (length (filter (\<lambda>d. d \<ge> real (radius m))
                (map row_min (pairwise_distances m prediction_mask target_mask True))))
         else 0)"

text \<open>The opposite offset, and the entry of the distance map at an offset: the offset
  \<open>(i, j, k)\<close> sits at the index \<open>(i + r, j + r, k + r)\<close> of the map reshaped to a cube.\<close>

definition vneg :: "vox \<Rightarrow> vox" where
  "vneg v = vsub (0, 0, 0) v"

definition map_at :: "nat \<Rightarrow> vox \<Rightarrow> real" where
  "map_at r v = val (reshape3 (2 * r + 1) (get_distance_map r)) (vadd v (int r, int r, int r))"

text \<open>
  The distance the kernels measure between two voxels: the Euclidean distance, cut at the
  radius. \<open>nearest\<close> is the least such distance from \<open>p\<close> to a true voxel of \<open>y\<close>, and the
  radius when \<open>y\<close> has none.
\<close>

definition clipped_dist :: "nat \<Rightarrow> vox \<Rightarrow> vox \<Rightarrow> real" where
  "clipped_dist r p q = min (real r) (sqrt (real_of_int (norm_sq (vsub q p))))"

definition nearest :: "nat \<Rightarrow> bool tensor \<Rightarrow> vox \<Rightarrow> real" where
  "nearest r y p = Min (set (real r # map (clipped_dist r p) (nonzero y)))"

text \<open>
  Two volumes of two voxels, used as a concrete input: both voxels above the cut, and only
  the second one.
\<close>

definition both_voxels :: "real tensor" where
  "both_voxels = \<lparr>shape = (1, 1, 2), val = (\<lambda>p. 1)\<rparr>"

definition second_voxel :: "real tensor" where
  "second_voxel = \<lparr>shape = (1, 1, 2), val = (\<lambda>p. if p = (0, 0, 1) then 1 else 0)\<rparr>"

section \<open>Errors\<close>

text \<open>
  The ways a call can end without a value. The first six are Python exceptions.
  \<open>NanResult\<close> and \<open>NoBackground\<close> are results the real-valued model does not represent:
  numpy's mean of an empty selection is \<^verbatim>\<open>nan\<close>, and scipy's distance transform of an
  input without a zero entry is left open. \<open>NonFinite\<close> stands for an array with \<^verbatim>\<open>inf\<close> or
  \<^verbatim>\<open>nan\<close> entries after a numpy division by zero. \<open>InvalidParameter\<close> is the error the
  specification names; no code path of the source raises it.
\<close>

datatype error =
    AssertionError | ValueError | IndexError | TypeError | ZeroDivisionError
  | UnboundLocalError | NanResult | NoBackground | NonFinite | InvalidParameter

section \<open>The surface distance: \<^verbatim>\<open>DistanceMetric.surface_distances\<close>\<close>

text \<open>The Euclidean distance of two voxels.\<close>

definition euclid :: "vox \<Rightarrow> vox \<Rightarrow> real" where
  "euclid p q = sqrt (real_of_int (norm_sq (vsub q p)))"

text \<open>
  \<^verbatim>\<open>scipy.ndimage.distance_transform_edt\<close>: an entry that is not zero is replaced by its
  least distance to a zero entry; a zero entry stays zero.
\<close>

definition distance_transform_edt :: "real tensor \<Rightarrow> error + real tensor" where
  "distance_transform_edt a =
     (let background = filter (\<lambda>q. val a q = 0) (indices (shape a))
      in if background = [] then Inl NoBackground
         else Inr \<lparr>shape = shape a,
                  val = (\<lambda>p. if val a p = 0 then 0
                            else Min (set (map (euclid p) background)))\<rparr>)"

text \<open>\<^verbatim>\<open>(dist == 1) * 1\<close>, read back by \<^verbatim>\<open>edge == 1\<close>: the mask of the entries equal to 1.\<close>

definition eq_one :: "real tensor \<Rightarrow> bool tensor" where
  "eq_one d = \<lparr>shape = shape d, val = (\<lambda>p. val d p = 1)\<rparr>"

definition logical_not :: "bool tensor \<Rightarrow> bool tensor" where
  "logical_not m = \<lparr>shape = shape m, val = (\<lambda>p. \<not> val m p)\<rparr>"

text \<open>\<^verbatim>\<open>np.mean\<close> of a list that is not empty.\<close>

definition mean :: "real list \<Rightarrow> real" where
  "mean xs = sum_list xs / real (length xs)"

text \<open>
  \<^verbatim>\<open>surface_distances(x, y)\<close> for boolean arrays; \<^verbatim>\<open>to_numpy\<close> only converts the
  container and is left out.
\<close>

definition surface_distances :: "bool tensor \<Rightarrow> bool tensor \<Rightarrow> error + real" where
  "surface_distances x y =
     (if shape x \<noteq> shape y then Inl AssertionError
      else case distance_transform_edt (to_float x) of Inl e \<Rightarrow> Inl e | Inr x_dist_int \<Rightarrow>
        let x_edge = eq_one x_dist_int in
        case distance_transform_edt (to_float y) of Inl e \<Rightarrow> Inl e | Inr y_dist_int \<Rightarrow>
        let y_edge = eq_one y_dist_int in
        case distance_transform_edt (to_float (logical_not x_edge)) of Inl e \<Rightarrow> Inl e | Inr x_dist \<Rightarrow>
        case distance_transform_edt (to_float (logical_not y_edge)) of Inl e \<Rightarrow> Inl e | Inr y_dist \<Rightarrow>
        let x_dists_to_y = map (val y_dist) (nonzero x_edge);
            y_dists_to_x = map (val x_dist) (nonzero y_edge)
        in if x_dists_to_y = [] \<or> y_dists_to_x = [] then Inl NanResult
           else Inr ((mean x_dists_to_y + mean y_dists_to_x) / 2))"

text \<open>The mask of one voxel \<open>p\<close> in a grid of shape \<open>sh\<close>: a unit cube.\<close>

definition voxel_mask :: "shape3 \<Rightarrow> vox \<Rightarrow> bool tensor" where
  "voxel_mask sh p = \<lparr>shape = sh, val = (\<lambda>q. q = p)\<rparr>"

text \<open>The offset of \<open>n\<close> voxels along axis \<open>i\<close>.\<close>

definition axis_offset :: "int \<Rightarrow> nat \<Rightarrow> vox" where
  "axis_offset n i = (if i = 0 then (n, 0, 0) else if i = 1 then (0, n, 0) else (0, 0, n))"

section \<open>Displacement courses: \<^verbatim>\<open>corrupt_data\<close>\<close>

text \<open>
  The second definition of \<^verbatim>\<open>corrupt_data\<close> in \<^verbatim>\<open>script/test_motion_1D.py\<close>, the one bound
  when the script calls it. \<^verbatim>\<open>x0\<close> and \<^verbatim>\<open>resolution\<close> are Python integers; \<^verbatim>\<open>sigma\<close> is an
  integer or a list of integers, \<^verbatim>\<open>amplitude\<close> a number or a list of numbers. The result is
  a numpy array of one or of two dimensions. \<open>Unmodelled\<close> marks an input the model does
  not follow: a list of amplitudes outside the method \<^verbatim>\<open>2step\<close>, which numpy would
  broadcast.
\<close>

datatype 'a arg = Scalar 'a | Listed "'a list"

datatype ndarray = Arr1 "real list" | Arr2 "real list list"

datatype failure = Raised error | Unmodelled

text \<open>Chaining of steps that may fail: the first failure ends the call.\<close>

definition and_then :: "failure + 'a \<Rightarrow> ('a \<Rightarrow> failure + 'b) \<Rightarrow> failure + 'b" where
  "and_then r f = (case r of Inl e \<Rightarrow> Inl e | Inr v \<Rightarrow> f v)"

text \<open>\<^verbatim>\<open>np.zeros((1, n))\<close> and \<^verbatim>\<open>np.ones((1, n)) * a\<close>: a negative length is a ValueError.\<close>

definition np_full :: "int \<Rightarrow> real \<Rightarrow> failure + real list" where
  "np_full n a = (if n < 0 then Inl (Raised ValueError) else Inr (replicate (nat n) a))"

text \<open>\<^verbatim>\<open>np.linspace(start, stop, num)\<close>.\<close>

definition linspace :: "real \<Rightarrow> real \<Rightarrow> int \<Rightarrow> failure + real list" where
  "linspace start stop num =
     (if num < 0 then Inl (Raised ValueError)
      else if num = 1 then Inr [start]
      else Inr (map (\<lambda>i. start + real i * ((stop - start) / real_of_int (num - 1)))
                 [0..<nat num]))"

text \<open>\<^verbatim>\<open>xs[i]\<close> on a Python list, for an index that is not negative.\<close>

definition item :: "'a list \<Rightarrow> nat \<Rightarrow> failure + 'a" where
  "item xs i = (if i < length xs then Inr (xs ! i) else Inl (Raised IndexError))"

text \<open>A parameter used as a number, and a parameter used as a list.\<close>

definition as_int :: "int arg \<Rightarrow> failure + int" where
  "as_int s = (case s of Scalar v \<Rightarrow> Inr v | Listed _ \<Rightarrow> Inl (Raised TypeError))"

definition as_real :: "real arg \<Rightarrow> failure + real" where
  "as_real a = (case a of Scalar v \<Rightarrow> Inr v | Listed _ \<Rightarrow> Inl Unmodelled)"

definition as_list :: "'a arg \<Rightarrow> failure + 'a list" where
  "as_list s = (case s of Scalar _ \<Rightarrow> Inl (Raised TypeError) | Listed vs \<Rightarrow> Inr vs)"

text \<open>
  The branch \<^verbatim>\<open>gauss\<close>. With \<^verbatim>\<open>sigma = 0\<close> numpy divides by zero: the exponent is minus
  infinity and the entry 0, except at the index \<^verbatim>\<open>x0\<close>, where it is \<^verbatim>\<open>nan\<close>.
\<close>

definition gauss_course :: "int \<Rightarrow> int arg \<Rightarrow> real arg \<Rightarrow> int \<Rightarrow> failure + real list" where
  "gauss_course x0 sigma amplitude resolution =
     and_then (as_int sigma) (\<lambda>s.
     and_then (as_real amplitude) (\<lambda>a.
       if s = 0
       then (if 0 \<le> x0 \<and> x0 < resolution then Inl (Raised NonFinite)
             else Inr (map (\<lambda>x. 0) [0..resolution - 1]))
       else Inr (map (\<lambda>x. exp (- ((real_of_int (x - x0))\<^sup>2) / real_of_int (2 * s\<^sup>2)) * a)
                  [0..resolution - 1])))"

text \<open>The branch \<^verbatim>\<open>2step\<close>, with the truncation or the padding to \<^verbatim>\<open>resolution\<close> entries.\<close>

definition two_step_course :: "int \<Rightarrow> int arg \<Rightarrow> real arg \<Rightarrow> int \<Rightarrow> failure + real list" where
  "two_step_course x0 sigma amplitude resolution =
     and_then (as_list sigma) (\<lambda>sg.
     and_then (item sg 0) (\<lambda>s0.
     and_then (np_full (x0 - s0) 0) (\<lambda>part1.
     and_then (as_list amplitude) (\<lambda>am.
     and_then (item am 0) (\<lambda>a0.
     and_then (linspace 0 a0 (2 * s0 + 1)) (\<lambda>part2.
     and_then (item sg 1) (\<lambda>s1.
     and_then (np_full (s1 - 1) a0) (\<lambda>part3.
     and_then (item am 1) (\<lambda>a1.
     and_then (linspace a0 a1 (2 * s0 + 1)) (\<lambda>part4.
     and_then (item sg 2) (\<lambda>s2.
     and_then (np_full (s2 - 1) a1) (\<lambda>part5.
     and_then (linspace a1 0 (2 * s0 + 1)) (\<lambda>part6.
       let y = part1 @ part2 @ part3 @ part4 @ part5 @ part6;
           remain = resolution - int (length y)
       in if remain < 0 then Inr (take (nat (int (length y) + remain)) y)
          else Inr (y @ replicate (nat remain) 0))))))))))))))"

text \<open>The branch \<^verbatim>\<open>step\<close>: the sign of the step is chosen by the test \<^verbatim>\<open>x0 < 100\<close>.\<close>

definition step_course :: "int \<Rightarrow> int arg \<Rightarrow> real arg \<Rightarrow> int \<Rightarrow> failure + real list" where
  "step_course x0 sigma amplitude resolution =
     and_then (as_int sigma) (\<lambda>s.
     and_then (np_full (x0 - s) 0) (\<lambda>part1.
     and_then (as_real amplitude) (\<lambda>a.
       if x0 < 100
       then and_then (linspace 0 a (2 * s + 1)) (\<lambda>part2.
            and_then (np_full ((resolution - x0) - s - 1) a) (\<lambda>part3.
              Inr (part1 @ part2 @ part3)))
       else and_then (linspace 0 (- a) (2 * s + 1)) (\<lambda>part2.
            and_then (np_full ((resolution - x0) - s - 1) (- a)) (\<lambda>part3.
              Inr (part1 @ part2 @ part3))))))"

text \<open>
  The branch \<^verbatim>\<open>Ustep\<close>. The slice \<^verbatim>\<open>y[left:stop] = 1\<close> follows Python: a negative stop
  counts from the end, and both ends are clamped to the array.
\<close>

definition slice_bound :: "int \<Rightarrow> int \<Rightarrow> int" where
  "slice_bound n i = (if i < 0 then max 0 (i + n) else min i n)"

definition ustep_course :: "int \<Rightarrow> int arg \<Rightarrow> real arg \<Rightarrow> int \<Rightarrow> failure + real list" where
  "ustep_course x0 sigma amplitude resolution =
     and_then (as_int sigma) (\<lambda>s.
       let left = max 0 (x0 - s div 2);
           start = slice_bound resolution left;
           stop = slice_bound resolution (x0 + s div 2)
       in and_then (as_real amplitude) (\<lambda>a.
            Inr (map (\<lambda>i. (if start \<le> i \<and> i < stop then 1 else 0) * a)
                   [0..resolution - 1])))"

text \<open>The branch \<^verbatim>\<open>sin\<close>; with \<^verbatim>\<open>x0 = 0\<close> numpy divides by zero.\<close>

definition sin_course :: "int \<Rightarrow> int \<Rightarrow> failure + real list" where
  "sin_course x0 resolution =
     (if x0 = 0 \<and> 0 < resolution then Inl (Raised NonFinite)
      else Inr (map (\<lambda>x. sin (real_of_int x / real_of_int x0 * 2 * pi)) [0..resolution - 1]))"

text \<open>
  The chain of \<^verbatim>\<open>if\<close> and \<^verbatim>\<open>elif\<close> on the method. It has no \<^verbatim>\<open>else\<close>: for any other
  method the variable \<^verbatim>\<open>y\<close> stays unbound, which is the result \<open>None\<close>.
\<close>

definition course ::
  "int \<Rightarrow> int arg \<Rightarrow> real arg \<Rightarrow> string \<Rightarrow> int \<Rightarrow> failure + real list option" where
  "course x0 sigma amplitude method resolution =
     (if method = ''gauss'' then and_then (gauss_course x0 sigma amplitude resolution) (\<lambda>y. Inr (Some y))
      else if method = ''2step''
        then and_then (two_step_course x0 sigma amplitude resolution) (\<lambda>y. Inr (Some y))
      else if method = ''step''
        then and_then (step_course x0 sigma amplitude resolution) (\<lambda>y. Inr (Some y))
      else if method = ''Ustep''
        then and_then (ustep_course x0 sigma amplitude resolution) (\<lambda>y. Inr (Some y))
      else if method = ''sin'' then and_then (sin_course x0 resolution) (\<lambda>y. Inr (Some y))
      else Inr None)"

text \<open>Reading the variable \<^verbatim>\<open>y\<close>: an UnboundLocalError when no branch has bound it.\<close>

definition read_y :: "real list option \<Rightarrow> failure + real list" where
  "read_y yopt = (case yopt of None \<Rightarrow> Inl (Raised UnboundLocalError) | Some y \<Rightarrow> Inr y)"

text \<open>\<^verbatim>\<open>if center == 'zero': y = y - y[resolution//2]\<close>.\<close>

definition centre_zero :: "string \<Rightarrow> int \<Rightarrow> real list option \<Rightarrow> failure + real list option" where
  "centre_zero center resolution yopt =
     (if center = ''zero''
      then and_then (read_y yopt) (\<lambda>y.
           and_then (item y (nat (resolution div 2))) (\<lambda>mid.
             Inr (Some (map (\<lambda>v. v - mid) y))))
      else Inr yopt)"

text \<open>
  \<^verbatim>\<open>for xx in mvt_axes: fp[xx,:] = y\<close> on the array \<^verbatim>\<open>fp\<close> of 6 rows: the right-hand side is
  read first, the row index must lie in \<open>[-6, 6)\<close>, and \<open>y\<close> must have the length of a row
  or length 1.
\<close>

fun fill_axes :: "real list list \<Rightarrow> int list \<Rightarrow> real list option \<Rightarrow> failure + real list list" where
  "fill_axes fp [] yopt = Inr fp"
| "fill_axes fp (xx # rest) yopt =
     and_then (read_y yopt) (\<lambda>y.
       if xx < - 6 \<or> 6 \<le> xx then Inl (Raised IndexError)
       else if length y \<noteq> length (fp ! nat (xx mod 6)) \<and> length y \<noteq> 1
         then Inl (Raised ValueError)
       else fill_axes
         (fp[nat (xx mod 6) := (if length y = length (fp ! nat (xx mod 6)) then y
                                else replicate (length (fp ! nat (xx mod 6))) (hd y))])
         rest yopt)"

text \<open>\<^verbatim>\<open>corrupt_data(x0, sigma, amplitude, method, mvt_axes, center, resolution)\<close>.\<close>

definition corrupt_data ::
  "int \<Rightarrow> int arg \<Rightarrow> real arg \<Rightarrow> string \<Rightarrow> int list \<Rightarrow> string \<Rightarrow> int \<Rightarrow> failure + ndarray" where
  "corrupt_data x0 sigma amplitude method mvt_axes center resolution =
     and_then (if resolution < 0 then Inl (Raised ValueError)
               else Inr (replicate 6 (replicate (nat resolution) 0))) (\<lambda>fp.
     and_then (course x0 sigma amplitude method resolution) (\<lambda>yopt.
     and_then (centre_zero center resolution yopt) (\<lambda>yopt.
     and_then (fill_axes fp mvt_axes yopt) (\<lambda>fp.
     and_then (read_y yopt) (\<lambda>y. Inr (Arr1 y))))))"

section \<open>Motion in k-space: \<^verbatim>\<open>simu_motion\<close>\<close>

text \<open>
  The arrays of \<^verbatim>\<open>simu_motion\<close> have one dimension and are lists; floating-point numbers
  are exact reals and complex numbers. The numpy transforms follow their documented
  meaning. \<open>twiddle n t\<close> is \<open>exp (2 \<pi> i t / n)\<close>.
\<close>

definition twiddle :: "nat \<Rightarrow> int \<Rightarrow> complex" where
  "twiddle n t = cis (2 * pi * real_of_int t / real n)"

text \<open>\<^verbatim>\<open>np.fft.fftn\<close> and \<^verbatim>\<open>np.fft.ifftn\<close> of an array of one dimension.\<close>

definition fftn :: "complex list \<Rightarrow> complex list" where
  "fftn xs = map (\<lambda>k. \<Sum>j\<leftarrow>[0..<length xs]. xs ! j * twiddle (length xs) (- (int k * int j)))
     [0..<length xs]"

definition ifftn :: "complex list \<Rightarrow> complex list" where
  "ifftn xs = map (\<lambda>j. (\<Sum>k\<leftarrow>[0..<length xs]. xs ! k * twiddle (length xs) (int k * int j))
       / of_nat (length xs))
     [0..<length xs]"

text \<open>
  \<^verbatim>\<open>np.fft.fftshift\<close> rolls the array forward by \<open>n div 2\<close> places, \<^verbatim>\<open>np.fft.ifftshift\<close>
  backward by as many.
\<close>

definition fftshift :: "'a list \<Rightarrow> 'a list" where
  "fftshift xs = (let n = length xs in drop (n - n div 2) xs @ take (n - n div 2) xs)"

definition ifftshift :: "'a list \<Rightarrow> 'a list" where
  "ifftshift xs = (let n = length xs in drop (n div 2) xs @ take (n div 2) xs)"

text \<open>\<^verbatim>\<open>np.arange(start, stop, step)\<close> for a positive step.\<close>

definition arange :: "real \<Rightarrow> real \<Rightarrow> real \<Rightarrow> real list" where
  "arange start stop step =
     map (\<lambda>i. start + real i * step) [0..<nat \<lceil>(stop - start) / step\<rceil>]"

text \<open>The product of two arrays of one dimension, with numpy's broadcasting.\<close>

definition np_mul :: "complex list \<Rightarrow> complex list \<Rightarrow> failure + complex list" where
  "np_mul xs ys =
     (if length xs = length ys then Inr (map (\<lambda>(x, y). x * y) (zip xs ys))
      else if length xs = 1 then Inr (map (\<lambda>y. hd xs * y) ys)
      else if length ys = 1 then Inr (map (\<lambda>x. x * hd ys) xs)
      else Inl (Raised ValueError))"

datatype signal = RealSignal "real list" | ComplexSignal "complex list"

text \<open>
  \<^verbatim>\<open>simu_motion(fp, so, return_abs)\<close>. The transform of an empty signal is a ValueError;
  the divisions \<^verbatim>\<open>2 / resolution\<close> and \<^verbatim>\<open>2 / (resolution - 1)\<close> are Python divisions and
  raise ZeroDivisionError. \<^verbatim>\<open>astype(np.complex)\<close> changes nothing on a complex array.
\<close>

definition simu_motion :: "real list \<Rightarrow> real list \<Rightarrow> bool \<Rightarrow> failure + signal" where
  "simu_motion fp so return_abs =
     (let resolution = length fp in
      if so = [] then Inl (Raised ValueError)
      else let fi = fftshift (fftn (ifftshift (map complex_of_real so))) in
      if resolution = 0 \<or> resolution = 1 then Inl (Raised ZeroDivisionError)
      else let kx = arange (- 1) (1 + 2 / real resolution) (2 / real (resolution - 1)) in
      and_then (np_mul (map (\<lambda>k. - \<i> * complex_of_real pi * complex_of_real k) kx)
                  (map complex_of_real fp)) (\<lambda>phase.
      and_then (np_mul fi (map exp phase)) (\<lambda>fm.
        let som = ifftshift (ifftn fm)
        in Inr (if return_abs then RealSignal (map cmod som) else ComplexSignal som))))"

section \<open>Properties of the border\<close>

declare indices.simps [simp del]

lemma upt_3: "[0..<3] = [0, 1, 2]"
  by (simp add: numeral_3_eq_3)

lemma shape_get_border: "shape (get_border volume c) = shape volume"
  by (simp add: get_border_def Let_def upt_3 mark_def zeros_like_def)

lemma val_mark: "val (mark ref shifted border) p =
    (if val ref p - val shifted p = 1 then 1 else val border p)"
  by (simp add: mark_def)

lemma val_get_border_rounds:
  "val (get_border volume c) p =
     (let ref = to_float (gt volume c) in
      if val ref p - val (cat_before 2 ref) p = 1 then 1
      else if val ref p - val (cat_after 2 ref) p = 1 then 1
      else if val ref p - val (cat_before 1 ref) p = 1 then 1
      else if val ref p - val (cat_after 1 ref) p = 1 then 1
      else if val ref p - val (cat_before 0 ref) p = 1 then 1
      else if val ref p - val (cat_after 0 ref) p = 1 then 1
      else 0)"
  by (simp add: get_border_def upt_3 Let_def val_mark zeros_like_def)

lemma ex_less_3: "(\<exists>i<3. Q i) \<longleftrightarrow> Q 0 \<or> Q 1 \<or> Q (2::nat)"
proof
  assume "\<exists>i<3. Q i"
  then obtain i where "i < 3" "Q i" by blast
  then have "i = 0 \<or> i = 1 \<or> i = 2" by arith
  with \<open>Q i\<close> show "Q 0 \<or> Q 1 \<or> Q 2" by blast
next
  have "(0::nat) < 3" "(1::nat) < 3" "(2::nat) < 3" by simp_all
  moreover assume "Q 0 \<or> Q 1 \<or> Q 2"
  ultimately show "\<exists>i<3. Q i" by blast
qed

lemma val_to_float_gt: "val (to_float (gt volume c)) p = (if val volume p > c then 1 else 0)"
  by (simp add: to_float_def gt_def)

lemma shifted_01:
  "val (cat_after i (to_float (gt volume c))) q = 0 \<or> val (cat_after i (to_float (gt volume c))) q = 1"
  "val (cat_before i (to_float (gt volume c))) q = 0 \<or> val (cat_before i (to_float (gt volume c))) q = 1"
  by (simp_all add: cat_after_def cat_before_def val_to_float_gt)

lemma diff_is_one:
  fixes r s :: real
  shows "r = 0 \<or> r = 1 \<Longrightarrow> s = 0 \<or> s = 1 \<Longrightarrow> (r - s = 1) = (r = 1 \<and> s = 0)"
  by (elim disjE) simp_all

lemma nested_if:
  "(if A then 1 else if B then 1 else if C then 1 else if D then 1 else if E then 1
    else if F then 1 else (0::real)) = (if A \<or> B \<or> C \<or> D \<or> E \<or> F then 1 else 0)"
  by simp

lemma rounds_arith:
  fixes r :: real
  assumes "r = 0 \<or> r = 1"
    and "a0 = 0 \<or> a0 = 1" "b0 = 0 \<or> b0 = 1" "a1 = 0 \<or> a1 = 1" "b1 = 0 \<or> b1 = 1"
        "a2 = 0 \<or> a2 = 1" "b2 = 0 \<or> b2 = 1"
  shows "(if r - b2 = 1 then 1 else if r - a2 = 1 then 1 else if r - b1 = 1 then 1
          else if r - a1 = 1 then 1 else if r - b0 = 1 then 1 else if r - a0 = 1 then 1 else (0::real))
       = (if r = 1 \<and> ((a0 = 0 \<or> b0 = 0) \<or> (a1 = 0 \<or> b1 = 0) \<or> (a2 = 0 \<or> b2 = 0)) then 1 else 0)"
proof -
  have "((r = 1 \<and> b2 = 0) \<or> (r = 1 \<and> a2 = 0) \<or> (r = 1 \<and> b1 = 0) \<or> (r = 1 \<and> a1 = 0)
        \<or> (r = 1 \<and> b0 = 0) \<or> (r = 1 \<and> a0 = 0))
      = (r = 1 \<and> ((a0 = 0 \<or> b0 = 0) \<or> (a1 = 0 \<or> b1 = 0) \<or> (a2 = 0 \<or> b2 = 0)))"
    by blast
  then show ?thesis
    unfolding nested_if diff_is_one [OF assms(1) assms(2)] diff_is_one [OF assms(1) assms(3)]
      diff_is_one [OF assms(1) assms(4)] diff_is_one [OF assms(1) assms(5)]
      diff_is_one [OF assms(1) assms(6)] diff_is_one [OF assms(1) assms(7)]
    by (rule arg_cong)
qed

lemma val_get_border:
  "val (get_border volume c) p =
     (if val volume p > c \<and>
         (\<exists>i<3. val (cat_after i (to_float (gt volume c))) p = 0
               \<or> val (cat_before i (to_float (gt volume c))) p = 0)
      then 1 else 0)"
proof -
  let ?ref = "to_float (gt volume c)"
  have r: "val ?ref p = 0 \<or> val ?ref p = 1" by (simp add: val_to_float_gt)
  have r1: "(val ?ref p = 1) = (val volume p > c)" by (simp add: val_to_float_gt)
  show ?thesis
    unfolding val_get_border_rounds Let_def ex_less_3
      rounds_arith [OF r shifted_01(1) [of 0] shifted_01(2) [of 0] shifted_01(1) [of 1]
        shifted_01(2) [of 1] shifted_01(1) [of 2] shifted_01(2) [of 2]] r1
    by (rule refl)
qed

text \<open>
  Claim C9. Every voxel marked 1 in the mask returned by \<^verbatim>\<open>_get_border\<close> is a foreground
  voxel of the thresholded volume: the border lies on the foreground side of a transition.
\<close>

theorem border_subset_foreground:
  "val (get_border volume c) p = 1 \<Longrightarrow> val (to_float (gt volume c)) p = 1"
  by (simp add: val_get_border val_to_float_gt split: if_splits)

lemma inside_single: "inside (shape single_voxel) p \<longleftrightarrow> p = (0, 0, 0)"
  by (cases p) (auto simp add: single_voxel_def)

lemma border_single_voxel: "val (get_border single_voxel (1 / 2)) (0, 0, 0) = 1"
  by (simp add: val_get_border_rounds Let_def val_to_float_gt cat_before_def cat_after_def
      axis_step_def to_float_def gt_def single_voxel_def)

theorem border_subset_foreground_witness:
  "val (get_border single_voxel (1 / 2)) (0, 0, 0) = 1
   \<and> val (to_float (gt single_voxel (1 / 2))) (0, 0, 0) = 1"
  using border_subset_foreground [OF border_single_voxel] border_single_voxel by simp

lemma val_cat_after:
  "val (cat_after i (to_float (gt volume c))) p =
     (if inside (shape volume) (vadd p (axis_step i)) \<and> val volume (vadd p (axis_step i)) > c
      then 1 else 0)"
  by (simp add: cat_after_def to_float_def gt_def)

lemma val_cat_before:
  "val (cat_before i (to_float (gt volume c))) p =
     (if inside (shape volume) (vsub p (axis_step i)) \<and> val volume (vsub p (axis_step i)) > c
      then 1 else 0)"
  by (simp add: cat_before_def to_float_def gt_def)

lemma on_face_iff:
  assumes "inside sh p"
  shows "on_face sh p \<longleftrightarrow>
    (\<exists>i<3. \<not> inside sh (vadd p (axis_step i)) \<or> \<not> inside sh (vsub p (axis_step i)))"
proof -
  obtain n0 n1 n2 where sh: "sh = (n0, n1, n2)" by (cases sh)
  obtain i j k where p: "p = (i, j, k)" by (cases p)
  show ?thesis
    using assms unfolding ex_less_3 sh p
    by (simp add: axis_step_def) arith
qed

text \<open>
  Claim C2, as amended. When the thresholded volume is constant, the mask returned by
  \<^verbatim>\<open>_get_border\<close> is known at every voxel: it is all zero when no voxel is above the cut;
  when every voxel is above the cut, it is 1 exactly on the faces of the grid (the volume is
  compared with a copy padded with zeros at the edge) and 0 in the interior.
\<close>

theorem border_of_constant_mask:
  assumes "\<forall>q. inside (shape volume) q \<longrightarrow> (val volume q > c) = b"
    and "inside (shape volume) p"
  shows "val (get_border volume c) p = (if b \<and> on_face (shape volume) p then 1 else 0)"
proof (cases b)
  case False
  with assms have "\<not> val volume p > c" by blast
  with False show ?thesis by (simp add: val_get_border)
next
  case True
  with assms have fg: "val volume q > c" if "inside (shape volume) q" for q
    using that by blast
  have a: "val (cat_after i (to_float (gt volume c))) p = 0
      \<longleftrightarrow> \<not> inside (shape volume) (vadd p (axis_step i))" for i
    using fg [of "vadd p (axis_step i)"] by (simp add: val_cat_after)
  have b: "val (cat_before i (to_float (gt volume c))) p = 0
      \<longleftrightarrow> \<not> inside (shape volume) (vsub p (axis_step i))" for i
    using fg [of "vsub p (axis_step i)"] by (simp add: val_cat_before)
  show ?thesis
    unfolding val_get_border a b on_face_iff [OF assms(2)]
    using True fg [OF assms(2)] by simp
qed

text \<open>
  The claim as first stated fails for a volume of one voxel above the cut: that voxel is
  marked.
\<close>

theorem border_of_full_volume_counterexample:
  "indices (shape single_voxel) = [(0, 0, 0)] \<and> val single_voxel (0, 0, 0) > 1 / 2
   \<and> val (get_border single_voxel (1 / 2)) (0, 0, 0) = 1"
  using border_single_voxel by (simp add: single_voxel_def indices.simps)

theorem border_of_constant_mask_witness:
  "inside (shape single_voxel) (0, 0, 0) \<and> val single_voxel (0, 0, 0) > 1 / 2
   \<and> on_face (shape single_voxel) (0, 0, 0)
   \<and> val (get_border single_voxel (1 / 2)) (0, 0, 0) = 1
   \<and> val (get_border (zeros_like single_voxel) (1 / 2)) (0, 0, 0) = 0"
  using border_of_constant_mask [of single_voxel "1 / 2" True "(0, 0, 0)"]
    border_of_constant_mask [of "zeros_like single_voxel" "1 / 2" False "(0, 0, 0)"]
  by (simp add: single_voxel_def zeros_like_def)

section \<open>Properties of the distance map\<close>

lemma length_distance_range: "length (distance_range r) = 2 * r + 1"
  by (simp add: distance_range_def)

lemma nth_distance_range: "n < 2 * r + 1 \<Longrightarrow> distance_range r ! n = int n - int r"
  by (simp add: distance_range_def)

lemma set_distance_range: "set (distance_range r) = {- int r..int r}"
  by (simp add: distance_range_def)

lemma distinct_distance_range: "distinct (distance_range r)"
  by (simp add: distance_range_def)

lemma length_offsets: "length (offsets r) = (2 * r + 1) * ((2 * r + 1) * (2 * r + 1))"
  by (simp add: offsets_def length_distance_range)

lemma distinct_offsets: "distinct (offsets r)"
  by (simp add: offsets_def distinct_product distinct_distance_range)

lemma set_offsets:
  "set (offsets r) = {(i, j, k). - int r \<le> i \<and> i \<le> int r \<and> - int r \<le> j \<and> j \<le> int r
     \<and> - int r \<le> k \<and> k \<le> int r}"
  by (auto simp add: offsets_def set_distance_range)

lemma flat_decompose:
  fixes a b c w :: nat
  assumes "b < w" "c < w"
  shows "((a * w + b) * w + c) div (w * w) = a"
    and "(((a * w + b) * w + c) mod (w * w)) div w = b"
    and "(((a * w + b) * w + c) mod (w * w)) mod w = c"
proof -
  have lt: "b * w + c < w * w"
  proof -
    have "b * w + c < b * w + w" using assms by simp
    also have "\<dots> = (b + 1) * w" by simp
    also have "\<dots> \<le> w * w" using assms by (simp add: mult_le_mono1 del: mult_Suc)
    finally show ?thesis .
  qed
  have pos: "0 < w" "w * w \<noteq> 0" using assms by auto
  have eq: "(a * w + b) * w + c = a * (w * w) + (b * w + c)"
    by (simp add: algebra_simps)
  show "((a * w + b) * w + c) div (w * w) = a"
    unfolding eq using lt pos by (simp del: mult_eq_0_iff)
  have m: "((a * w + b) * w + c) mod (w * w) = b * w + c"
    unfolding eq using lt pos by (simp del: mult_eq_0_iff)
  show "(((a * w + b) * w + c) mod (w * w)) div w = b"
    unfolding m using assms by simp
  show "(((a * w + b) * w + c) mod (w * w)) mod w = c"
    unfolding m using assms by simp
qed

lemma flat_bound:
  fixes a b c w :: nat
  assumes "a < w" "b < w" "c < w"
  shows "(a * w + b) * w + c < w * (w * w)"
proof -
  have "a * w + b < a * w + w" using assms by simp
  also have "\<dots> = (a + 1) * w" by simp
  also have "\<dots> \<le> w * w" using assms by (simp add: mult_le_mono1 del: mult_Suc)
  finally have "a * w + b + 1 \<le> w * w" by simp
  then have "(a * w + b + 1) * w \<le> (w * w) * w" by (rule mult_le_mono1)
  moreover have "(a * w + b) * w + c < (a * w + b + 1) * w" using assms by simp
  ultimately show ?thesis by (simp add: mult.commute mult.left_commute)
qed

lemma nth_offsets:
  assumes "a < 2 * r + 1" "b < 2 * r + 1" "c < 2 * r + 1"
  shows "offsets r ! ((a * (2 * r + 1) + b) * (2 * r + 1) + c)
       = (int a - int r, int b - int r, int c - int r)"
proof -
  let ?w = "2 * r + 1"
  let ?R = "distance_range r"
  let ?n = "(a * ?w + b) * ?w + c"
  have lenRR: "length (List.product ?R ?R) = ?w * ?w"
    by (simp add: length_distance_range)
  have n: "?n < length ?R * length (List.product ?R ?R)"
    unfolding lenRR length_distance_range by (rule flat_bound [OF assms])
  have m: "?n mod (?w * ?w) < length ?R * length ?R"
    unfolding length_distance_range by simp
  show ?thesis
    unfolding offsets_def product_nth [OF n] lenRR
    unfolding product_nth [OF m] length_distance_range
    unfolding flat_decompose [OF assms(2) assms(3)]
    using assms by (simp add: nth_distance_range)
qed

lemma map_at_eq:
  assumes "v \<in> set (offsets r)"
  shows "map_at r v = clip_above (real r) (sqrt (real_of_int (norm_sq v)))"
proof -
  obtain i j k where v: "v = (i, j, k)" by (cases v)
  from assms have rng: "- int r \<le> i" "i \<le> int r" "- int r \<le> j" "j \<le> int r"
      "- int r \<le> k" "k \<le> int r"
    by (simp_all add: set_offsets v)
  define a b c where "a = nat (i + int r)" and "b = nat (j + int r)" and "c = nat (k + int r)"
  have abc: "a < 2 * r + 1" "b < 2 * r + 1" "c < 2 * r + 1"
    using rng by (simp_all add: a_def b_def c_def)
  have orig: "int a - int r = i" "int b - int r = j" "int c - int r = k"
    using rng by (simp_all add: a_def b_def c_def)
  have ints: "i + int r = int a" "j + int r = int b" "k + int r = int c"
    using rng by (simp_all add: a_def b_def c_def)
  have idx: "nat ((int a * int (2 * r + 1) + int b) * int (2 * r + 1) + int c)
      = (a * (2 * r + 1) + b) * (2 * r + 1) + c"
    by (simp only: of_nat_mult [symmetric] of_nat_add [symmetric] nat_int)
  have "map_at r v = get_distance_map r ! ((a * (2 * r + 1) + b) * (2 * r + 1) + c)"
    unfolding map_at_def reshape3_def v by (simp only: vadd.simps ints tensor.simps prod.case idx)
  also have "\<dots> = clip_above (real r) (sqrt (real_of_int (norm_sq
      (offsets r ! ((a * (2 * r + 1) + b) * (2 * r + 1) + c)))))"
    unfolding get_distance_map_def
    by (rule nth_map) (simp only: length_offsets flat_bound [OF abc])
  finally show ?thesis
    unfolding nth_offsets [OF abc] orig v .
qed

lemma norm_sq_zero: "norm_sq v = 0 \<longleftrightarrow> v = (0, 0, 0)"
proof -
  obtain i j k where v: "v = (i, j, k)" by (cases v)
  have "i\<^sup>2 + j\<^sup>2 + k\<^sup>2 = 0 \<longleftrightarrow> i = 0 \<and> j = 0 \<and> k = 0"
    by (simp add: add_nonneg_eq_0_iff)
  then show ?thesis by (simp add: v)
qed

lemma norm_sq_nonneg: "0 \<le> norm_sq v"
  by (cases v) simp

lemma norm_sq_vneg: "norm_sq (vneg v) = norm_sq v"
  by (cases v) (simp add: vneg_def)

lemma vneg_offsets: "v \<in> set (offsets r) \<Longrightarrow> vneg v \<in> set (offsets r)"
  by (cases v) (auto simp add: vneg_def set_offsets)

lemma centre_offsets: "(0, 0, 0) \<in> set (offsets r)"
  by (simp add: set_offsets)

lemma clip_above_nonneg: "0 \<le> d \<Longrightarrow> 0 \<le> clip_above (real r) d"
  by (simp add: clip_above_def)

lemma clip_zero_iff:
  assumes "v \<in> set (offsets r)"
  shows "clip_above (real r) (sqrt (real_of_int (norm_sq v))) = 0 \<longleftrightarrow> v = (0, 0, 0)"
proof (cases "sqrt (real_of_int (norm_sq v)) > real r")
  case True
  then have nz: "v \<noteq> (0, 0, 0)" by auto
  have "r \<noteq> 0"
  proof
    assume "r = 0"
    moreover from assms have "v \<in> {(i, j, k). - int r \<le> i \<and> i \<le> int r \<and> - int r \<le> j
        \<and> j \<le> int r \<and> - int r \<le> k \<and> k \<le> int r}"
      unfolding set_offsets .
    ultimately have "v = (0, 0, 0)" by (cases v) simp
    with nz show False by simp
  qed
  with True nz show ?thesis by (simp add: clip_above_def)
next
  case False
  then have "clip_above (real r) (sqrt (real_of_int (norm_sq v))) = sqrt (real_of_int (norm_sq v))"
    by (simp add: clip_above_def)
  then show ?thesis by (simp add: norm_sq_zero)
qed

lemma set_distance_map:
  "set (get_distance_map r) = (\<lambda>v. clip_above (real r) (sqrt (real_of_int (norm_sq v)))) ` set (offsets r)"
  by (simp add: get_distance_map_def)

lemma distance_map_min: "Min (set (get_distance_map r)) = 0"
proof (rule Min_eqI)
  show "finite (set (get_distance_map r))" by simp
  show "0 \<le> y" if "y \<in> set (get_distance_map r)" for y
    using that unfolding set_distance_map
    by (auto intro!: clip_above_nonneg simp add: norm_sq_nonneg)
  have "clip_above (real r) (sqrt (real_of_int (norm_sq (0, 0, 0)))) = 0"
    using clip_zero_iff [OF centre_offsets] by simp
  then show "0 \<in> set (get_distance_map r)"
    unfolding set_distance_map using centre_offsets [of r] by (metis imageI)
qed

lemma distance_map_one_zero: "length (filter (\<lambda>d. d = 0) (get_distance_map r)) = 1"
proof -
  have "filter (\<lambda>d. d = 0) (get_distance_map r)
      = map (\<lambda>v. clip_above (real r) (sqrt (real_of_int (norm_sq v))))
          (filter (\<lambda>v. clip_above (real r) (sqrt (real_of_int (norm_sq v))) = 0) (offsets r))"
    by (simp add: get_distance_map_def filter_map comp_def)
  also have "filter (\<lambda>v. clip_above (real r) (sqrt (real_of_int (norm_sq v))) = 0) (offsets r)
      = filter (\<lambda>v. v = (0, 0, 0)) (offsets r)"
    by (rule filter_cong [OF refl]) (rule clip_zero_iff)
  finally have "length (filter (\<lambda>d. d = 0) (get_distance_map r))
      = length (filter (\<lambda>v. v = (0, 0, 0)) (offsets r))"
    by simp
  also have "\<dots> = card ({v. v = (0, 0, 0)} \<inter> set (offsets r))"
    by (rule distinct_length_filter [OF distinct_offsets])
  also have "{v. v = (0, 0, 0)} \<inter> set (offsets r) = {(0, 0, 0)}"
    using centre_offsets [of r] by auto
  finally show ?thesis by simp
qed

text \<open>
  Claim C8. The distance map is the same at an offset and at the opposite offset, for every
  offset of the cubic neighbourhood; its least value is 0; the entry at the centre is 0 and
  no other entry is.
\<close>

theorem distance_map_symmetric:
  "(\<forall>v \<in> set (offsets r). map_at r v = map_at r (vneg v))
   \<and> Min (set (get_distance_map r)) = 0
   \<and> map_at r (0, 0, 0) = 0
   \<and> (\<forall>v \<in> set (offsets r). map_at r v = 0 \<longleftrightarrow> v = (0, 0, 0))
   \<and> length (filter (\<lambda>d. d = 0) (get_distance_map r)) = 1"
proof (intro conjI ballI)
  fix v assume v: "v \<in> set (offsets r)"
  show "map_at r v = map_at r (vneg v)"
    by (simp only: map_at_eq [OF v] map_at_eq [OF vneg_offsets [OF v]] norm_sq_vneg)
  show "map_at r v = 0 \<longleftrightarrow> v = (0, 0, 0)"
    by (simp only: map_at_eq [OF v] clip_zero_iff [OF v])
next
  show "Min (set (get_distance_map r)) = 0" by (rule distance_map_min)
  show "map_at r (0, 0, 0) = 0"
    using clip_zero_iff [OF centre_offsets, of r] by (simp only: map_at_eq [OF centre_offsets])
  show "length (filter (\<lambda>d. d = 0) (get_distance_map r)) = 1" by (rule distance_map_one_zero)
qed

theorem distance_map_symmetric_witness:
  "(1, 0, - 1) \<in> set (offsets 1) \<and> map_at 1 (1, 0, - 1) = map_at 1 (vneg (1, 0, - 1))
   \<and> vneg (1, 0, - 1) = (- 1, 0, 1) \<and> map_at 1 (1, 0, - 1) \<noteq> 0"
proof -
  have m: "(1, 0, - 1) \<in> set (offsets 1)" by (simp add: set_offsets)
  from distance_map_symmetric [of 1] m
  have "map_at 1 (1, 0, - 1) = map_at 1 (vneg (1, 0, - 1))" "map_at 1 (1, 0, - 1) \<noteq> 0"
    by auto
  with m show ?thesis by (simp add: vneg_def)
qed

section \<open>The kernel bank measures the nearest distance\<close>

lemma indices_product:
  "indices (n0, n1, n2)
     = List.product [0..int n0 - 1] (List.product [0..int n1 - 1] [0..int n2 - 1])"
  by (simp add: indices.simps product_concat_map map_concat comp_def)

lemma set_indices: "set (indices sh) = {p. inside sh p}"
proof -
  obtain n0 n1 n2 where sh: "sh = (n0, n1, n2)" by (cases sh)
  show ?thesis unfolding sh indices_product by auto
qed

lemma distinct_indices: "distinct (indices sh)"
proof -
  obtain n0 n1 n2 where sh: "sh = (n0, n1, n2)" by (cases sh)
  show ?thesis unfolding sh indices_product by (simp add: distinct_product)
qed

lemma set_unique: "set (unique xs) = set xs"
  by (simp add: unique_def)

lemma distinct_unique: "distinct (unique xs)"
  by (simp add: unique_def)

lemma sorted_unique: "sorted (unique xs)"
  by (simp add: unique_def)

lemma length_unique_pos: "xs \<noteq> [] \<Longrightarrow> 0 < length (unique xs)"
  using set_unique [of xs] by (cases "unique xs") auto

lemma distance_map_nonempty: "get_distance_map r \<noteq> []"
  using centre_offsets [of r] by (auto simp add: get_distance_map_def)

lemma flat_index_lt:
  assumes "(i, j, k) \<in> set (offsets r)"
  shows "nat (((i + int r) * int (2 * r + 1) + (j + int r)) * int (2 * r + 1) + (k + int r))
      < length (get_distance_map r)"
proof -
  from assms have rng: "- int r \<le> i" "i \<le> int r" "- int r \<le> j" "j \<le> int r"
      "- int r \<le> k" "k \<le> int r"
    by (simp_all add: set_offsets)
  define a b c where "a = nat (i + int r)" and "b = nat (j + int r)" and "c = nat (k + int r)"
  have abc: "a < 2 * r + 1" "b < 2 * r + 1" "c < 2 * r + 1"
    using rng by (simp_all add: a_def b_def c_def)
  have ints: "i + int r = int a" "j + int r = int b" "k + int r = int c"
    using rng by (simp_all add: a_def b_def c_def)
  have idx: "nat ((int a * int (2 * r + 1) + int b) * int (2 * r + 1) + int c)
      = (a * (2 * r + 1) + b) * (2 * r + 1) + c"
    by (simp only: of_nat_mult [symmetric] of_nat_add [symmetric] nat_int)
  show ?thesis
    unfolding ints idx get_distance_map_def length_map length_offsets
    by (rule flat_bound [OF abc])
qed

lemma val_reshape_map:
  assumes "v \<in> set (offsets r)"
  shows "val (reshape3 (2 * r + 1) (map g (get_distance_map r))) (vadd v (int r, int r, int r))
       = g (map_at r v)"
proof -
  obtain i j k where v: "v = (i, j, k)" by (cases v)
  show ?thesis
    using flat_index_lt [OF assms [unfolded v]]
    by (simp add: v reshape3_def map_at_def)
qed

lemma index_offset:
  "off \<in> set (indices (2 * r + 1, 2 * r + 1, 2 * r + 1))
     \<longleftrightarrow> vsub off (int r, int r, int r) \<in> set (offsets r)"
  by (cases off) (simp only: set_indices set_offsets, auto)

lemma vadd_vsub: "vadd (vsub off d) d = off"
  by (cases off; cases d) simp

lemma vsub_vadd: "vsub (vadd v d) d = v"
  by (cases v; cases d) simp

lemma vsub_vadd_shift: "vsub (vadd p off) d = vadd p (vsub off d)"
  by (cases p; cases off; cases d) simp

lemma sum_list_indicator_nonzero:
  fixes f :: "'a \<Rightarrow> real"
  assumes "\<And>x. x \<in> set xs \<Longrightarrow> 0 \<le> f x"
  shows "(\<Sum>x\<leftarrow>xs. f x) \<noteq> 0 \<longleftrightarrow> (\<exists>x\<in>set xs. f x \<noteq> 0)"
proof -
  have "sum_list (map f xs) = 0 \<longleftrightarrow> (\<forall>y\<in>set (map f xs). y = 0)"
    by (rule sum_list_nonneg_eq_0_iff) (use assms in auto)
  then show ?thesis by auto
qed

lemma conv_nonzero:
  assumes k: "\<And>v. v \<in> set (offsets r) \<Longrightarrow>
      val weight (vadd v (int r, int r, int r)) = (if P v then 1 else 0)"
    and sh: "shape weight = (2 * r + 1, 2 * r + 1, 2 * r + 1)"
  shows "val (conv3d (to_float y) weight r) p \<noteq> 0 \<longleftrightarrow>
    (\<exists>v\<in>set (offsets r). P v \<and> inside (shape y) (vadd p v) \<and> val y (vadd p v))"
proof -
  let ?d = "(int r, int r, int r)"
  let ?f = "\<lambda>off. val weight off * padded (to_float y) r (vadd p off)"
  have f: "?f off = (if P (vsub off ?d) \<and> inside (shape y) (vadd p (vsub off ?d))
        \<and> val y (vadd p (vsub off ?d)) then 1 else 0)"
    if "off \<in> set (indices (shape weight))" for off
  proof -
    from that have v: "vsub off ?d \<in> set (offsets r)"
      unfolding sh index_offset .
    have "val weight off = (if P (vsub off ?d) then 1 else 0)"
      using k [OF v] by (simp only: vadd_vsub)
    then show ?thesis
      by (simp add: padded_def Let_def vsub_vadd_shift to_float_def)
  qed
  have "val (conv3d (to_float y) weight r) p \<noteq> 0
      \<longleftrightarrow> (\<exists>off\<in>set (indices (shape weight)). ?f off \<noteq> 0)"
    unfolding conv3d_def tensor.simps
    by (rule sum_list_indicator_nonzero) (simp add: f)
  also have "\<dots> \<longleftrightarrow> (\<exists>off\<in>set (indices (shape weight)).
      P (vsub off ?d) \<and> inside (shape y) (vadd p (vsub off ?d)) \<and> val y (vadd p (vsub off ?d)))"
    by (rule bex_cong [OF refl]) (simp add: f)
  also have "\<dots> \<longleftrightarrow> (\<exists>v\<in>set (offsets r). P v \<and> inside (shape y) (vadd p v) \<and> val y (vadd p v))"
  proof
    assume "\<exists>off\<in>set (indices (shape weight)).
      P (vsub off ?d) \<and> inside (shape y) (vadd p (vsub off ?d)) \<and> val y (vadd p (vsub off ?d))"
    then obtain off where "off \<in> set (indices (shape weight))"
      and *: "P (vsub off ?d) \<and> inside (shape y) (vadd p (vsub off ?d)) \<and> val y (vadd p (vsub off ?d))"
      by blast
    then have "vsub off ?d \<in> set (offsets r)" unfolding sh index_offset by simp
    with * show "\<exists>v\<in>set (offsets r). P v \<and> inside (shape y) (vadd p v) \<and> val y (vadd p v)"
      by blast
  next
    assume "\<exists>v\<in>set (offsets r). P v \<and> inside (shape y) (vadd p v) \<and> val y (vadd p v)"
    then obtain v where v: "v \<in> set (offsets r)"
      and *: "P v \<and> inside (shape y) (vadd p v) \<and> val y (vadd p v)" by blast
    have "vadd v ?d \<in> set (indices (shape weight))"
      unfolding sh index_offset vsub_vadd by (rule v)
    moreover have "vsub (vadd v ?d) ?d = v" by (rule vsub_vadd)
    ultimately show "\<exists>off\<in>set (indices (shape weight)).
      P (vsub off ?d) \<and> inside (shape y) (vadd p (vsub off ?d)) \<and> val y (vadd p (vsub off ?d))"
      using * by (metis (no_types, lifting))
  qed
  finally show ?thesis .
qed

lemma init_simps:
  "radius (init c r) = r" "d_max (init c r) = real r" "cut (init c r) = c"
  "distances (init c r) = unique (get_distance_map r)"
  "distance_map (init c r) = get_distance_map r"
  "distance_kernels (init c r)
     = get_distance_kernels r (get_distance_map r) (unique (get_distance_map r))"
  by (simp_all add: init_def Let_def)

lemma length_kernels: "length (get_distance_kernels r dmap ds) = length ds"
  by (simp add: get_distance_kernels_def)

lemma shape_kernel:
  "j < length ds \<Longrightarrow> shape (get_distance_kernels r dmap ds ! j) = (2 * r + 1, 2 * r + 1, 2 * r + 1)"
  by (simp add: get_distance_kernels_def reshape3_def del: One_nat_def)

lemma nth_kernels:
  "j < length ds \<Longrightarrow> get_distance_kernels r dmap ds ! j
     = reshape3 (2 * r + 1) (map (\<lambda>d. if d = ds ! j then 1 else 0) dmap)"
  unfolding get_distance_kernels_def by simp

lemma val_kernel:
  assumes "j < length ds" "v \<in> set (offsets r)"
  shows "val (get_distance_kernels r (get_distance_map r) ds ! j) (vadd v (int r, int r, int r))
       = (if map_at r v = ds ! j then 1 else 0)"
  unfolding nth_kernels [OF assms(1)] by (rule val_reshape_map [OF assms(2)])

lemma clip_above_min: "clip_above r d = min r d"
  by (simp add: clip_above_def min_def)

lemma map_at_le: "v \<in> set (offsets r) \<Longrightarrow> map_at r v \<le> real r"
  by (simp add: map_at_eq clip_above_min)

lemma map_at_in_distances:
  "v \<in> set (offsets r) \<Longrightarrow> map_at r v \<in> set (unique (get_distance_map r))"
  unfolding set_unique set_distance_map map_at_eq [symmetric]
  by (metis (no_types, lifting) image_iff map_at_eq)

lemma radius_in_distances: "real r \<in> set (unique (get_distance_map r))"
proof -
  have v: "(int r, 0, 0) \<in> set (offsets r)" by (simp add: set_offsets)
  have "map_at r (int r, 0, 0) = real r"
    by (simp add: map_at_eq [OF v] clip_above_min)
  with map_at_in_distances [OF v] show ?thesis by simp
qed

lemma distances_le: "d \<in> set (unique (get_distance_map r)) \<Longrightarrow> d \<le> real r"
  unfolding set_unique set_distance_map by (auto simp add: clip_above_min)

lemma outside_offsets_far:
  assumes "v \<notin> set (offsets r)"
  shows "real r \<le> sqrt (real_of_int (norm_sq v))"
proof -
  obtain i j k where v: "v = (i, j, k)" by (cases v)
  from assms have "\<bar>i\<bar> > int r \<or> \<bar>j\<bar> > int r \<or> \<bar>k\<bar> > int r"
    by (auto simp add: set_offsets v)
  then have "(int r)\<^sup>2 \<le> i\<^sup>2 \<or> (int r)\<^sup>2 \<le> j\<^sup>2 \<or> (int r)\<^sup>2 \<le> k\<^sup>2"
    by (metis abs_le_square_iff abs_of_nat less_imp_le)
  moreover have "0 \<le> i\<^sup>2" "0 \<le> j\<^sup>2" "0 \<le> k\<^sup>2" by simp_all
  ultimately have "(int r)\<^sup>2 \<le> norm_sq v" unfolding v norm_sq.simps by linarith
  then have "real_of_int ((int r)\<^sup>2) \<le> real_of_int (norm_sq v)" by (simp only: of_int_le_iff)
  then have "(real r)\<^sup>2 \<le> real_of_int (norm_sq v)" by simp
  then show ?thesis by (rule real_le_rsqrt)
qed

lemma clipped_dist_cases:
  "clipped_dist r p q = (if vsub q p \<in> set (offsets r) then map_at r (vsub q p) else real r)"
proof (cases "vsub q p \<in> set (offsets r)")
  case True
  then show ?thesis by (simp add: clipped_dist_def map_at_eq clip_above_min)
next
  case False
  from outside_offsets_far [OF this] False show ?thesis by (simp add: clipped_dist_def)
qed

lemma vadd_vsub_cancel: "vadd p (vsub q p) = q"
  by (cases p; cases q) simp

lemma vsub_vadd_cancel: "vsub (vadd p v) p = v"
  by (cases p; cases v) simp

lemma set_nonzero: "set (nonzero y) = {q. inside (shape y) q \<and> val y q}"
  by (auto simp add: nonzero_def set_indices)

lemma nearest_eq:
  "nearest r y p = Min (insert (real r) (map_at r `
     {v \<in> set (offsets r). inside (shape y) (vadd p v) \<and> val y (vadd p v)}))"
proof -
  let ?H = "{v \<in> set (offsets r). inside (shape y) (vadd p v) \<and> val y (vadd p v)}"
  have "insert (real r) (clipped_dist r p ` set (nonzero y)) = insert (real r) (map_at r ` ?H)"
  proof (intro equalityI subsetI)
    fix d assume "d \<in> insert (real r) (clipped_dist r p ` set (nonzero y))"
    then consider "d = real r" | q where "q \<in> set (nonzero y)" "d = clipped_dist r p q" by blast
    then show "d \<in> insert (real r) (map_at r ` ?H)"
    proof cases
      case 1 then show ?thesis by simp
    next
      case 2
      show ?thesis
      proof (cases "vsub q p \<in> set (offsets r)")
        case True
        with 2 have "vsub q p \<in> ?H" by (simp add: set_nonzero vadd_vsub_cancel)
        moreover have "d = map_at r (vsub q p)" using 2 True by (simp add: clipped_dist_cases)
        ultimately show ?thesis by blast
      next
        case False
        with 2 show ?thesis by (simp add: clipped_dist_cases)
      qed
    qed
  next
    fix d assume "d \<in> insert (real r) (map_at r ` ?H)"
    then consider "d = real r" | v where "v \<in> ?H" "d = map_at r v" by blast
    then show "d \<in> insert (real r) (clipped_dist r p ` set (nonzero y))"
    proof cases
      case 1 then show ?thesis by simp
    next
      case 2
      then have "vadd p v \<in> set (nonzero y)" by (simp add: set_nonzero)
      moreover have "d = clipped_dist r p (vadd p v)"
        using 2 by (simp add: clipped_dist_cases vsub_vadd_cancel)
      ultimately show ?thesis by blast
    qed
  qed
  then show ?thesis by (simp add: nearest_def)
qed

lemma pairwise_all_kernels:
  "pairwise_distances (init c r) x y False =
     map (\<lambda>p. map (\<lambda>j. if val (conv3d (to_float y)
           (get_distance_kernels r (get_distance_map r) (unique (get_distance_map r)) ! j) r) p \<noteq> 0
         then unique (get_distance_map r) ! j else real r)
       [0..<length (unique (get_distance_map r))]) (nonzero x)"
  unfolding pairwise_distances_def Let_def init_simps
  by (simp add: length_kernels comp_def cong: map_cong)

lemma column_hit:
  assumes "j < length (unique (get_distance_map r))"
  shows "val (conv3d (to_float y)
      (get_distance_kernels r (get_distance_map r) (unique (get_distance_map r)) ! j) r) p \<noteq> 0
    \<longleftrightarrow> (\<exists>v\<in>set (offsets r). map_at r v = unique (get_distance_map r) ! j
          \<and> inside (shape y) (vadd p v) \<and> val y (vadd p v))"
  by (rule conv_nonzero [OF val_kernel [OF assms] shape_kernel [OF assms]])

lemma row_set:
  fixes r :: nat and y :: "bool tensor" and p :: vox
  defines "ds \<equiv> unique (get_distance_map r)"
  defines "H \<equiv> {v \<in> set (offsets r). inside (shape y) (vadd p v) \<and> val y (vadd p v)}"
  shows "set (map (\<lambda>j. if (\<exists>v\<in>set (offsets r). map_at r v = ds ! j
              \<and> inside (shape y) (vadd p v) \<and> val y (vadd p v))
            then ds ! j else real r) [0..<length ds])
       = insert (real r) (map_at r ` H)"
    (is "set (map ?e _) = _")
proof -
  have S: "set (map ?e [0..<length ds]) = ?e ` {0..<length ds}"
    by (simp only: set_map set_upt)
  show ?thesis
    unfolding S
  proof (intro equalityI subsetI)
    fix d assume "d \<in> ?e ` {0..<length ds}"
    then obtain j where j: "j \<in> {0..<length ds}" "d = ?e j" by (rule imageE)
    show "d \<in> insert (real r) (map_at r ` H)"
    proof (cases "\<exists>v\<in>set (offsets r). map_at r v = ds ! j
              \<and> inside (shape y) (vadd p v) \<and> val y (vadd p v)")
      case True
      then obtain v where "v \<in> H" "map_at r v = ds ! j" unfolding H_def by blast
      moreover from True j(2) have "d = ds ! j" by simp
      ultimately show ?thesis by (metis imageI insertI2)
    next
      case False
      with j(2) have "d = real r" by simp
      then show ?thesis by simp
    qed
  next
    fix d assume d: "d \<in> insert (real r) (map_at r ` H)"
    have hit: "?e j = ds ! j" if "v \<in> H" "map_at r v = ds ! j" for v j
    proof -
      from that have "\<exists>v\<in>set (offsets r). map_at r v = ds ! j
              \<and> inside (shape y) (vadd p v) \<and> val y (vadd p v)"
        unfolding H_def by blast
      then show ?thesis by simp
    qed
    have inH: "map_at r v \<in> ?e ` {0..<length ds}" if "v \<in> H" for v
    proof -
      from that have "map_at r v \<in> set ds"
        unfolding H_def ds_def by (simp add: map_at_in_distances)
      then obtain j where j: "j < length ds" "ds ! j = map_at r v"
        by (auto simp add: in_set_conv_nth)
      from hit [OF that j(2) [symmetric]] j(2) have "map_at r v = ?e j" by simp
      moreover from j(1) have "j \<in> {0..<length ds}" by simp
      ultimately show ?thesis by (rule image_eqI)
    qed
    from d consider "d = real r" | v where "v \<in> H" "d = map_at r v" by blast
    then show "d \<in> ?e ` {0..<length ds}"
    proof cases
      case 2 then show ?thesis using inH by simp
    next
      case 1
      obtain j where j: "j < length ds" "ds ! j = real r"
        using radius_in_distances [of r] unfolding ds_def by (auto simp add: in_set_conv_nth)
      have "d = ?e j" using j(2) 1 by simp
      moreover from j(1) have "j \<in> {0..<length ds}" by simp
      ultimately show ?thesis by (rule image_eqI)
    qed
  qed
qed

lemma row_min_pairwise:
  "map row_min (pairwise_distances (init c r) x y False) = map (nearest r y) (nonzero x)"
proof -
  have "row_min (map (\<lambda>j. if val (conv3d (to_float y)
           (get_distance_kernels r (get_distance_map r) (unique (get_distance_map r)) ! j) r) p \<noteq> 0
         then unique (get_distance_map r) ! j else real r)
       [0..<length (unique (get_distance_map r))]) = nearest r y p" for p
  proof -
    have "map (\<lambda>j. if val (conv3d (to_float y)
           (get_distance_kernels r (get_distance_map r) (unique (get_distance_map r)) ! j) r) p \<noteq> 0
         then unique (get_distance_map r) ! j else real r)
       [0..<length (unique (get_distance_map r))]
     = map (\<lambda>j. if (\<exists>v\<in>set (offsets r). map_at r v = unique (get_distance_map r) ! j
              \<and> inside (shape y) (vadd p v) \<and> val y (vadd p v))
            then unique (get_distance_map r) ! j else real r)
         [0..<length (unique (get_distance_map r))]"
      by (rule map_cong [OF refl]) (simp add: column_hit)
    then show ?thesis
      unfolding row_min_def nearest_eq by (simp only: row_set)
  qed
  then show ?thesis
    unfolding pairwise_all_kernels by (simp add: comp_def)
qed

section \<open>The two terms of the average Hausdorff distance\<close>

lemma first_term_nearest:
  "first_term (init c r) prediction target =
      (if count_true (clear_overlap (gt prediction c) (gt target c)) = 0 then 0
       else sum_list (map (nearest r (get_border_mask (gt target c)))
               (nonzero (clear_overlap (gt prediction c) (gt target c))))
            / real (count_true (gt prediction c)))"
  unfolding first_term_def Let_def init_simps row_min_pairwise by simp

lemma second_term_nearest:
  "second_term (init c r) prediction target =
      (if count_true (clear_overlap (gt target c) (gt prediction c)) = 0 then 0
       else sum_list (map (nearest r (get_border_mask (gt prediction c)))
               (nonzero (clear_overlap (gt target c) (gt prediction c))))
            / real (count_true (gt target c)))"
  unfolding second_term_def Let_def init_simps row_min_pairwise by simp

lemma upto_0_1: "[0..1::int] = [0, 1]"
  by code_simp

lemma indices_112:
  "indices (1, 1, 2) = [(0, 0, 0), (0, 0, 1)]"
  "indices (Suc 0, Suc 0, 2) = [(0, 0, 0), (0, 0, 1)]"
  by (simp_all add: indices.simps upto_0_1)

lemma nonzero_both: "nonzero (gt both_voxels (1 / 2)) = [(0, 0, 0), (0, 0, 1)]"
  by (simp add: nonzero_def gt_def both_voxels_def indices_112 upto_0_1)

lemma nonzero_second: "nonzero (gt second_voxel (1 / 2)) = [(0, 0, 1)]"
  by (simp add: nonzero_def gt_def second_voxel_def indices_112 upto_0_1)

lemma nonzero_only:
  "nonzero (clear_overlap (gt both_voxels (1 / 2)) (gt second_voxel (1 / 2))) = [(0, 0, 0)]"
  by (simp add: nonzero_def clear_overlap_def gt_def second_voxel_def both_voxels_def indices_112 upto_0_1)

lemma shape_simps:
  "shape (gt volume c) = shape volume" "shape (to_float m) = shape m"
  "shape (clear_overlap a b) = shape a" "shape (get_border_mask t) = shape t"
  by (simp_all add: gt_def to_float_def clear_overlap_def get_border_mask_def Let_def
      shape_get_border)

lemma val_get_border_mask:
  "val (get_border_mask t) p \<longleftrightarrow> val (get_border (to_float t) (1 / 2)) p = 1"
  by (simp add: get_border_mask_def Let_def val_get_border)

lemma nonzero_border_second: "nonzero (get_border_mask (gt second_voxel (1 / 2))) = [(0, 0, 1)]"
proof -
  have s: "shape (get_border_mask (gt second_voxel (1 / 2))) = (1, 1, 2)"
    unfolding shape_simps by (simp add: second_voxel_def)
  have v1: "val (get_border_mask (gt second_voxel (1 / 2))) (0, 0, 1)"
    unfolding val_get_border_mask
    by (simp add: val_get_border_rounds Let_def val_to_float_gt cat_before_def cat_after_def
      axis_step_def to_float_def gt_def second_voxel_def)
  have v0: "\<not> val (get_border_mask (gt second_voxel (1 / 2))) (0, 0, 0)"
    unfolding val_get_border_mask
    by (simp add: val_get_border to_float_def gt_def second_voxel_def)
  show ?thesis
    unfolding nonzero_def s indices_112 using v0 v1 by simp
qed

lemma nonzero_none:
  "nonzero (clear_overlap (gt second_voxel (1 / 2)) (gt both_voxels (1 / 2))) = []"
  by (simp add: nonzero_def clear_overlap_def gt_def second_voxel_def both_voxels_def indices_112
      upto_0_1)

lemma nearest_second: "nearest 2 (get_border_mask (gt second_voxel (1 / 2))) (0, 0, 0) = 1"
  by (simp add: nearest_def nonzero_border_second clipped_dist_def)

text \<open>
  Claim C1, as amended. For volumes of one shape and a metric made by \<^verbatim>\<open>__init__\<close>, the
  first term of \<^verbatim>\<open>average_hausdorff_distance\<close> is 0 when no voxel is in the prediction
  only; otherwise it is the sum, over the voxels in the prediction only, of the least
  distance (cut at the radius) to the border of the target, divided by the number of all
  foreground voxels of the prediction, the overlap included. The second term is the same
  with prediction and target exchanged.
\<close>

theorem directional_terms:
  assumes "shape prediction = shape target"
  shows "first_term (init c r) prediction target =
      (if count_true (clear_overlap (gt prediction c) (gt target c)) = 0 then 0
       else (\<Sum>p\<leftarrow>nonzero (clear_overlap (gt prediction c) (gt target c)).
               nearest r (get_border_mask (gt target c)) p)
            / real (count_true (gt prediction c)))
    \<and> second_term (init c r) prediction target =
      (if count_true (clear_overlap (gt target c) (gt prediction c)) = 0 then 0
       else (\<Sum>p\<leftarrow>nonzero (clear_overlap (gt target c) (gt prediction c)).
               nearest r (get_border_mask (gt prediction c)) p)
            / real (count_true (gt target c)))"
  unfolding first_term_nearest second_term_nearest by simp

theorem directional_terms_witness:
  "shape both_voxels = shape second_voxel
   \<and> first_term (init (1 / 2) 2) both_voxels second_voxel = 1 / 2
   \<and> second_term (init (1 / 2) 2) both_voxels second_voxel = 0"
proof -
  have sh: "shape both_voxels = shape second_voxel"
    by (simp add: both_voxels_def second_voxel_def)
  from directional_terms [OF sh, of "1 / 2" 2] sh show ?thesis
    by (simp add: count_true_def nonzero_only nonzero_none nonzero_both nearest_second)
qed

text \<open>
  The claim as first stated divides by the number of voxels in the prediction only. With
  both voxels in the prediction and the second one in the target, one voxel is in the
  prediction only, at distance 1 of the border of the target: the average over that voxel
  is 1, and the first term is 1 / 2.
\<close>

theorem first_term_denominator_counterexample:
  "count_true (clear_overlap (gt both_voxels (1 / 2)) (gt second_voxel (1 / 2))) = 1
   \<and> sum_list (map (nearest 2 (get_border_mask (gt second_voxel (1 / 2))))
         (nonzero (clear_overlap (gt both_voxels (1 / 2)) (gt second_voxel (1 / 2)))))
       / real (count_true (clear_overlap (gt both_voxels (1 / 2)) (gt second_voxel (1 / 2)))) = 1
   \<and> first_term (init (1 / 2) 2) both_voxels second_voxel = 1 / 2"
  by (simp add: first_term_nearest count_true_def nonzero_only nonzero_both nearest_second)

section \<open>The collapsed kernel\<close>

lemma kernels_map:
  "get_distance_kernels r dmap ds
     = map (\<lambda>d0. reshape3 (2 * r + 1) (map (\<lambda>d. if d = d0 then 1 else 0) dmap)) ds"
  by (rule nth_equalityI) (simp_all add: length_kernels nth_kernels)

lemma sum_indicator_distinct:
  "distinct xs \<Longrightarrow> (\<Sum>x\<leftarrow>xs. if a = x then 1 else 0) = (if a \<in> set xs then 1 else (0::real))"
  by (induction xs) auto

lemma sorted_nth0_Min:
  fixes xs :: "real list"
  assumes "sorted xs" "xs \<noteq> []"
  shows "xs ! 0 = Min (set xs)"
proof -
  from assms obtain x rest where xs: "xs = x # rest" by (cases xs) auto
  with assms(1) have "\<forall>y\<in>set rest. x \<le> y" by simp
  then have "Min (set xs) = x" unfolding xs by (intro Min_eqI) auto
  then show ?thesis by (simp add: xs)
qed

lemma first_distance_zero: "unique (get_distance_map r) ! 0 = 0"
proof -
  have "unique (get_distance_map r) \<noteq> []"
    using length_unique_pos [OF distance_map_nonempty, of r] by auto
  from sorted_nth0_Min [OF sorted_unique this] show ?thesis
    by (simp only: set_unique distance_map_min)
qed

lemma last_distance_radius: "last (unique (get_distance_map r)) = real r"
proof -
  let ?ds = "unique (get_distance_map r)"
  have ne: "?ds \<noteq> []" using length_unique_pos [OF distance_map_nonempty, of r] by auto
  then have "last ?ds \<in> set ?ds" by simp
  then have le: "last ?ds \<le> real r" by (rule distances_le)
  obtain j where j: "j < length ?ds" "?ds ! j = real r"
    using radius_in_distances [of r] by (auto simp add: in_set_conv_nth)
  have "?ds ! j \<le> ?ds ! (length ?ds - 1)"
    using j(1) by (intro sorted_nth_mono [OF sorted_unique]) auto
  then have "real r \<le> last ?ds" using ne by (simp add: j(2) last_conv_nth)
  with le show ?thesis by simp
qed

lemma in_butlast_distances:
  assumes "d \<in> set (unique (get_distance_map r))"
  shows "d \<in> set (butlast (unique (get_distance_map r))) \<longleftrightarrow> d < real r"
proof -
  let ?ds = "unique (get_distance_map r)"
  have ne: "?ds \<noteq> []" using assms by auto
  have split: "?ds = butlast ?ds @ [real r]"
    using append_butlast_last_id [OF ne] by (simp only: last_distance_radius)
  have "distinct (butlast ?ds @ [real r])"
    using distinct_unique [of "get_distance_map r"] split by simp
  then have notin: "real r \<notin> set (butlast ?ds)" by simp
  have "set ?ds = insert (real r) (set (butlast ?ds))"
    using split by (metis Un_insert_right append_Nil2 list.simps(15) set_append)
  with assms have cases: "d = real r \<or> d \<in> set (butlast ?ds)" by simp
  show ?thesis
  proof
    assume "d \<in> set (butlast ?ds)"
    with notin have "d \<noteq> real r" by blast
    with distances_le [OF assms] show "d < real r" by simp
  next
    assume "d < real r"
    with cases show "d \<in> set (butlast ?ds)" by simp
  qed
qed

lemma val_collapsed_kernel:
  assumes "v \<in> set (offsets r)"
  shows "val (sum_kernels (2 * r + 1)
      (butlast (get_distance_kernels r (get_distance_map r) (unique (get_distance_map r)))))
        (vadd v (int r, int r, int r))
    = (if map_at r v < real r then 1 else 0)"
proof -
  let ?ds = "unique (get_distance_map r)"
  have "val (sum_kernels (2 * r + 1) (butlast (get_distance_kernels r (get_distance_map r) ?ds)))
        (vadd v (int r, int r, int r))
      = (\<Sum>d0\<leftarrow>butlast ?ds. if map_at r v = d0 then 1 else 0)"
    unfolding kernels_map map_butlast [symmetric] sum_kernels_def
    by (simp add: comp_def val_reshape_map [OF assms] del: One_nat_def)
  also have "\<dots> = (if map_at r v \<in> set (butlast ?ds) then 1 else 0)"
    by (rule sum_indicator_distinct) (simp add: distinct_butlast distinct_unique)
  also have "\<dots> = (if map_at r v < real r then 1 else 0)"
    by (simp only: in_butlast_distances [OF map_at_in_distances [OF assms]])
  finally show ?thesis .
qed

lemma pairwise_single_kernel:
  "pairwise_distances (init c r) x y True =
     map (\<lambda>p. [if (\<exists>v\<in>set (offsets r). map_at r v < real r
                     \<and> inside (shape y) (vadd p v) \<and> val y (vadd p v))
                 then 0 else real r]) (nonzero x)"
proof -
  have hit: "val (conv3d (to_float y) (sum_kernels (2 * r + 1)
        (butlast (get_distance_kernels r (get_distance_map r) (unique (get_distance_map r))))) r) p \<noteq> 0
     \<longleftrightarrow> (\<exists>v\<in>set (offsets r). map_at r v < real r
           \<and> inside (shape y) (vadd p v) \<and> val y (vadd p v))" for p
    by (rule conv_nonzero [OF val_collapsed_kernel]) (simp_all add: sum_kernels_def)
  have "pairwise_distances (init c r) x y True =
     map (\<lambda>p. [if val (conv3d (to_float y) (sum_kernels (2 * r + 1)
        (butlast (get_distance_kernels r (get_distance_map r) (unique (get_distance_map r))))) r) p \<noteq> 0
                 then unique (get_distance_map r) ! 0 else real r]) (nonzero x)"
    unfolding pairwise_distances_def Let_def init_simps
    by (simp add: comp_def del: One_nat_def)
  then show ?thesis unfolding hit first_distance_zero .
qed

text \<open>
  Claim C10. With \<^verbatim>\<open>single_kernel=True\<close> the result of \<^verbatim>\<open>_pairwise_distances\<close> has one entry
  for each true voxel of the source mask: 0 when a true voxel of the target mask lies at an
  offset of the neighbourhood whose map distance is strictly below the radius, and the
  radius otherwise. So every entry is 0 or the radius.
\<close>

theorem single_kernel_distances:
  assumes "shape x = shape y"
  shows "pairwise_distances (init c r) x y True =
       map (\<lambda>p. [if (\<exists>v\<in>set (offsets r). map_at r v < real r
                       \<and> inside (shape y) (vadd p v) \<and> val y (vadd p v))
                   then 0 else real r]) (nonzero x)
     \<and> (\<forall>row\<in>set (pairwise_distances (init c r) x y True).
          \<forall>d\<in>set row. d = 0 \<or> d = real r)"
  unfolding pairwise_single_kernel by auto

theorem single_kernel_distances_witness:
  "shape (gt both_voxels (1 / 2)) = shape (get_border_mask (gt second_voxel (1 / 2)))
   \<and> pairwise_distances (init (1 / 2) 2) (gt both_voxels (1 / 2))
        (get_border_mask (gt second_voxel (1 / 2))) True = [[0], [0]]
   \<and> pairwise_distances (init (1 / 2) 2) (gt both_voxels (1 / 2))
        (gt (zeros_like both_voxels) (1 / 2)) True = [[2], [2]]"
proof -
  let ?x = "gt both_voxels (1 / 2)"
  let ?y = "get_border_mask (gt second_voxel (1 / 2))"
  let ?z = "gt (zeros_like both_voxels) (1 / 2)"
  have sh: "shape ?x = shape ?y" "shape ?x = shape ?z"
    by (simp_all add: shape_simps both_voxels_def second_voxel_def zeros_like_def)
  have "(0, 0, 1) \<in> set (nonzero ?y)" by (simp add: nonzero_border_second)
  then have y1: "inside (shape ?y) (0, 0, 1)" "val ?y (0, 0, 1)"
    by (simp_all only: set_nonzero mem_Collect_eq)
  have m: "(0, 0, 1) \<in> set (offsets 2)" "(0, 0, 0) \<in> set (offsets 2)"
    by (simp_all add: set_offsets)
  have d: "map_at 2 (0, 0, 1) < real 2" "map_at 2 (0, 0, 0) < real 2"
    by (simp_all add: map_at_eq [OF m(1)] map_at_eq [OF m(2)] clip_above_def)
  have e0: "\<exists>v\<in>set (offsets 2). map_at 2 v < real 2
      \<and> inside (shape ?y) (vadd (0, 0, 0) v) \<and> val ?y (vadd (0, 0, 0) v)"
    using m(1) d(1) y1 by (intro bexI [of _ "(0, 0, 1)"]) simp_all
  have e1: "\<exists>v\<in>set (offsets 2). map_at 2 v < real 2
      \<and> inside (shape ?y) (vadd (0, 0, 1) v) \<and> val ?y (vadd (0, 0, 1) v)"
    using m(2) d(2) y1 by (intro bexI [of _ "(0, 0, 0)"]) simp_all
  have z: "\<not> val ?z q" for q by (simp add: gt_def zeros_like_def)
  from single_kernel_distances [OF sh(1), of "1 / 2" 2]
  have "pairwise_distances (init (1 / 2) 2) ?x ?y True = [[0], [0]]"
    by (simp only: nonzero_both list.map e0 e1 if_True)
  moreover from single_kernel_distances [OF sh(2), of "1 / 2" 2]
  have "pairwise_distances (init (1 / 2) 2) ?x ?z True = [[2], [2]]"
    by (simp add: nonzero_both z)
  ultimately show ?thesis using sh(1) by simp
qed

section \<open>Two masks of one voxel\<close>

lemma filter_eq_single: "distinct xs \<Longrightarrow> p \<in> set xs \<Longrightarrow> filter (\<lambda>x. x = p) xs = [p]"
proof (induction xs)
  case Nil
  then show ?case by simp
next
  case (Cons a xs)
  show ?case
  proof (cases "a = p")
    case True
    with Cons.prems have "p \<notin> set xs" by simp
    then have "filter (\<lambda>x. x = p) xs = []" by (auto simp add: filter_empty_conv)
    with True show ?thesis by simp
  next
    case False
    with Cons show ?thesis by simp
  qed
qed

lemma nonzero_single:
  assumes "inside (shape m) p" and "\<And>x. inside (shape m) x \<Longrightarrow> val m x = (x = p)"
  shows "nonzero m = [p]"
proof -
  have "filter (val m) (indices (shape m)) = filter (\<lambda>x. x = p) (indices (shape m))"
    by (rule filter_cong [OF refl]) (simp add: set_indices assms(2))
  also have "\<dots> = [p]"
    by (rule filter_eq_single [OF distinct_indices]) (simp add: set_indices assms(1))
  finally show ?thesis by (simp add: nonzero_def)
qed

lemma val_gt_voxel: "val (gt (to_float (voxel_mask sh p)) (1 / 2)) x \<longleftrightarrow> x = p"
  by (simp add: gt_def to_float_def voxel_mask_def)

lemma shape_gt_voxel: "shape (gt (to_float (voxel_mask sh p)) (1 / 2)) = sh"
  by (simp add: shape_simps voxel_mask_def)

lemma vadd_axis_step_neq: "vadd x (axis_step i) \<noteq> x"
  by (cases x) (simp add: axis_step_def)

lemma val_border_voxel:
  "val (get_border_mask (gt (to_float (voxel_mask sh q)) (1 / 2))) x \<longleftrightarrow> x = q"
proof -
  let ?T = "gt (to_float (voxel_mask sh q)) (1 / 2)"
  have fg: "val (to_float ?T) x > 1 / 2 \<longleftrightarrow> x = q" for x
    by (simp add: to_float_def [of "gt (to_float (voxel_mask sh q)) (1 / 2)"] val_gt_voxel)
  have "val (cat_after 0 (to_float (gt (to_float ?T) (1 / 2)))) q = 0"
    unfolding val_cat_after fg using vadd_axis_step_neq [of q 0] by simp
  then have "\<exists>i<3. val (cat_after i (to_float (gt (to_float ?T) (1 / 2)))) q = 0
      \<or> val (cat_before i (to_float (gt (to_float ?T) (1 / 2)))) q = 0"
    by (intro exI [of _ 0]) simp
  then show ?thesis
    unfolding val_get_border_mask val_get_border fg by auto
qed

lemma sqrt_9: "sqrt 9 = 3"
proof -
  have "sqrt ((3::real)\<^sup>2) = 3" by (simp only: real_sqrt_abs abs_numeral)
  then show ?thesis by simp
qed

lemma ahd_two_voxels:
  assumes p: "inside sh p" and q: "inside sh q" and pq: "p \<noteq> q"
  shows "average_hausdorff_distance (init (1 / 2) r)
      (to_float (voxel_mask sh p)) (to_float (voxel_mask sh q))
    = clipped_dist r p q + clipped_dist r q p"
proof -
  let ?P = "gt (to_float (voxel_mask sh p)) (1 / 2)"
  let ?T = "gt (to_float (voxel_mask sh q)) (1 / 2)"
  have only: "nonzero (clear_overlap ?P ?T) = [p]" "nonzero (clear_overlap ?T ?P) = [q]"
    using p q pq
    by (auto intro!: nonzero_single simp add: shape_simps voxel_mask_def clear_overlap_def
        gt_def to_float_def)
  have all: "nonzero ?P = [p]" "nonzero ?T = [q]"
    using p q by (auto intro!: nonzero_single simp add: shape_gt_voxel val_gt_voxel)
  have border: "nonzero (get_border_mask ?P) = [p]" "nonzero (get_border_mask ?T) = [q]"
    using p q
    by (auto intro!: nonzero_single simp add: shape_simps(4) shape_gt_voxel val_border_voxel)
  have n: "nearest r (get_border_mask ?T) p = clipped_dist r p q"
    "nearest r (get_border_mask ?P) q = clipped_dist r q p"
    by (simp_all add: nearest_def border clipped_dist_def)
  show ?thesis
    unfolding average_hausdorff_distance_def first_term_nearest second_term_nearest
    by (simp add: count_true_def only all n)
qed

lemma norm_sq_ge_1: "v \<noteq> (0, 0, 0) \<Longrightarrow> 1 \<le> norm_sq v"
  using norm_sq_zero [of v] norm_sq_nonneg [of v] by linarith

lemma vsub_eq_zero: "vsub x p = (0, 0, 0) \<longleftrightarrow> x = p"
  by (cases x; cases p) auto

lemma euclid_ge_1: "x \<noteq> p \<Longrightarrow> 1 \<le> euclid p x"
proof -
  assume "x \<noteq> p"
  then have "1 \<le> norm_sq (vsub x p)" by (intro norm_sq_ge_1) (simp add: vsub_eq_zero)
  then have "1 \<le> real_of_int (norm_sq (vsub x p))" by simp
  then show ?thesis unfolding euclid_def by simp
qed

lemma edt_voxel:
  assumes p: "inside sh p" and n: "inside sh n" and np: "norm_sq (vsub n p) = 1"
  shows "\<exists>D. distance_transform_edt (to_float (voxel_mask sh p)) = Inr D \<and> shape D = sh
    \<and> (\<forall>x. val D x = 1 \<longleftrightarrow> x = p)"
proof -
  let ?a = "to_float (voxel_mask sh p)"
  let ?bg = "filter (\<lambda>q. val ?a q = 0) (indices (shape ?a))"
  have shp: "shape ?a = sh" by (simp add: to_float_def voxel_mask_def)
  have z: "val ?a x = 0 \<longleftrightarrow> x \<noteq> p" for x
    by (simp add: to_float_def voxel_mask_def)
  have neq: "n \<noteq> p"
  proof
    assume "n = p"
    then have "vsub n p = (0, 0, 0)" by (simp only: vsub_eq_zero)
    then have "norm_sq (vsub n p) = 0" by (simp only: norm_sq_zero)
    with np show False by simp
  qed
  have bg: "set ?bg = {x. inside sh x \<and> x \<noteq> p}"
    unfolding shp set_filter set_indices z by blast
  have nbg: "n \<in> set ?bg" unfolding bg using n neq by simp
  then have ne: "?bg \<noteq> []" by (metis empty_iff empty_set)
  have "euclid p n = 1" unfolding euclid_def np by simp
  with nbg have one: "1 \<in> euclid p ` set ?bg" by (metis image_eqI)
  have "Min (euclid p ` set ?bg) = 1"
  proof (rule Min_eqI)
    show "finite (euclid p ` set ?bg)" by simp
    show "1 \<in> euclid p ` set ?bg" by (rule one)
    fix d assume "d \<in> euclid p ` set ?bg"
    then obtain x where "x \<in> set ?bg" "d = euclid p x" by (rule imageE)
    then show "1 \<le> d" unfolding bg by (simp add: euclid_ge_1)
  qed
  then have m: "Min (set (map (euclid p) ?bg)) = 1" by (simp only: set_map)
  define D where "D = \<lparr>shape = shape ?a, val = (\<lambda>x. if val ?a x = 0 then 0
        else Min (set (map (euclid x) ?bg)))\<rparr>"
  have v: "val D x = 1 \<longleftrightarrow> x = p" for x
  proof (cases "x = p")
    case True
    then have "val D x = Min (set (map (euclid p) ?bg))"
      unfolding D_def by (simp only: tensor.select_convs z) simp
    with m True show ?thesis by simp
  next
    case False
    then have "val D x = 0" unfolding D_def by (simp only: tensor.select_convs z) simp
    with False show ?thesis by simp
  qed
  have "distance_transform_edt ?a = Inr D"
    unfolding distance_transform_edt_def Let_def D_def using ne by (simp only: if_False)
  moreover have "shape D = sh" unfolding D_def by (simp only: tensor.select_convs shp)
  ultimately show ?thesis using v by blast
qed

lemma edt_not_edge:
  assumes p: "inside sh p" and sh: "shape E = sh" and E: "\<And>x. val E x \<longleftrightarrow> x = p"
  shows "\<exists>D. distance_transform_edt (to_float (logical_not E)) = Inr D
    \<and> (\<forall>v. val D v = (if v = p then 0 else euclid v p))"
proof -
  let ?a = "to_float (logical_not E)"
  let ?bg = "filter (\<lambda>q. val ?a q = 0) (indices (shape ?a))"
  have z: "val ?a x = 0 \<longleftrightarrow> x = p" for x
    by (simp add: to_float_def logical_not_def E)
  have shp: "shape ?a = sh" by (simp add: to_float_def logical_not_def sh)
  have "?bg = filter (\<lambda>x. x = p) (indices sh)" unfolding shp z ..
  also have "\<dots> = [p]"
    by (rule filter_eq_single [OF distinct_indices]) (simp add: set_indices p)
  finally have bg: "?bg = [p]" .
  define D where "D = \<lparr>shape = shape ?a, val = (\<lambda>x. if val ?a x = 0 then 0
        else Min (set (map (euclid x) ?bg)))\<rparr>"
  have "val D v = (if v = p then 0 else euclid v p)" for v
    unfolding D_def bg by (simp only: tensor.select_convs z) simp
  moreover have "distance_transform_edt ?a = Inr D"
    unfolding distance_transform_edt_def Let_def D_def bg by (simp only: list.distinct if_False)
  ultimately show ?thesis by blast
qed

lemma surface_two_voxels:
  assumes p: "inside sh p" and q: "inside sh q" and pq: "p \<noteq> q"
    and n: "inside sh n" "norm_sq (vsub n p) = 1"
    and n': "inside sh n'" "norm_sq (vsub n' q) = 1"
  shows "surface_distances (voxel_mask sh p) (voxel_mask sh q) = Inr ((euclid p q + euclid q p) / 2)"
proof -
  obtain X where X: "distance_transform_edt (to_float (voxel_mask sh p)) = Inr X"
      "shape X = sh" "\<And>x. val X x = 1 \<longleftrightarrow> x = p"
    using edt_voxel [OF p n] by blast
  obtain Y where Y: "distance_transform_edt (to_float (voxel_mask sh q)) = Inr Y"
      "shape Y = sh" "\<And>x. val Y x = 1 \<longleftrightarrow> x = q"
    using edt_voxel [OF q n'] by blast
  have xe: "shape (eq_one X) = sh" "\<And>x. val (eq_one X) x \<longleftrightarrow> x = p"
    by (simp_all add: eq_one_def X)
  have ye: "shape (eq_one Y) = sh" "\<And>x. val (eq_one Y) x \<longleftrightarrow> x = q"
    by (simp_all add: eq_one_def Y)
  obtain DX where DX: "distance_transform_edt (to_float (logical_not (eq_one X))) = Inr DX"
      "\<And>v. val DX v = (if v = p then 0 else euclid v p)"
    using edt_not_edge [OF p xe] by blast
  obtain DY where DY: "distance_transform_edt (to_float (logical_not (eq_one Y))) = Inr DY"
      "\<And>v. val DY v = (if v = q then 0 else euclid v q)"
    using edt_not_edge [OF q ye] by blast
  have nz: "nonzero (eq_one X) = [p]" "nonzero (eq_one Y) = [q]"
    using p q by (auto intro!: nonzero_single simp add: xe ye)
  have shx: "shape (voxel_mask sh p) = shape (voxel_mask sh q)"
    by (simp add: voxel_mask_def)
  have s1: "surface_distances (voxel_mask sh p) (voxel_mask sh q)
      = Inr ((mean (map (val DY) (nonzero (eq_one X)))
             + mean (map (val DX) (nonzero (eq_one Y)))) / 2)"
    unfolding surface_distances_def Let_def
    by (simp add: shx X(1) Y(1) DX(1) DY(1) nz)
  show ?thesis
    unfolding s1 nz using pq by (simp add: mean_def DX(2) DY(2))
qed

lemma offset_facts:
  assumes "q = vadd p (axis_offset 3 i)" "inside sh p" "inside sh q"
  shows "p \<noteq> q" "norm_sq (vsub q p) = 9" "norm_sq (vsub p q) = 9"
    "inside sh (vadd p (axis_offset 1 i))" "norm_sq (vsub (vadd p (axis_offset 1 i)) p) = 1"
    "inside sh (vsub q (axis_offset 1 i))" "norm_sq (vsub (vsub q (axis_offset 1 i)) q) = 1"
proof -
  obtain a b c where p: "p = (a, b, c)" by (cases p)
  obtain n0 n1 n2 where sh: "sh = (n0, n1, n2)" by (cases sh)
  show "p \<noteq> q" "norm_sq (vsub q p) = 9" "norm_sq (vsub p q) = 9"
    "inside sh (vadd p (axis_offset 1 i))" "norm_sq (vsub (vadd p (axis_offset 1 i)) p) = 1"
    "inside sh (vsub q (axis_offset 1 i))" "norm_sq (vsub (vsub q (axis_offset 1 i)) q) = 1"
    using assms(2,3) unfolding assms(1) p sh
    by (cases "i = 0"; cases "i = 1"; simp add: axis_offset_def)+
qed

lemma two_voxels_at_3:
  assumes p: "inside sh p" and q: "inside sh q"
    and d: "norm_sq (vsub q p) = 9" "norm_sq (vsub p q) = 9" and pq: "p \<noteq> q"
    and n: "inside sh n" "norm_sq (vsub n p) = 1"
    and n': "inside sh n'" "norm_sq (vsub n' q) = 1"
  shows "average_hausdorff_distance (init (1 / 2) 5)
        (to_float (voxel_mask sh p)) (to_float (voxel_mask sh q)) = 6
    \<and> surface_distances (voxel_mask sh p) (voxel_mask sh q) = Inr 3"
proof -
  have c: "clipped_dist 5 p q = 3" "clipped_dist 5 q p = 3"
    unfolding clipped_dist_def d by (simp_all add: sqrt_9)
  have e: "euclid p q = 3" "euclid q p = 3"
    unfolding euclid_def d by (simp_all add: sqrt_9)
  have "average_hausdorff_distance (init (1 / 2) 5)
        (to_float (voxel_mask sh p)) (to_float (voxel_mask sh q)) = 6"
    unfolding ahd_two_voxels [OF p q pq] c by simp
  moreover have "surface_distances (voxel_mask sh p) (voxel_mask sh q) = Inr 3"
    unfolding surface_two_voxels [OF p q pq n n'] e by simp
  ultimately show ?thesis by simp
qed

text \<open>
  Claim C4. For two masks of one voxel each, three voxels apart along one axis of a grid of
  any shape, and a metric made with the default cut and radius 5,
  \<^verbatim>\<open>average_hausdorff_distance\<close> returns 6 and \<^verbatim>\<open>surface_distances\<close> returns 3.
\<close>

theorem unit_cubes_three_apart:
  assumes "inside sh p" "inside sh q"
    and "q = vadd p (axis_offset 3 i) \<or> p = vadd q (axis_offset 3 i)"
  shows "average_hausdorff_distance (init (1 / 2) 5)
        (to_float (voxel_mask sh p)) (to_float (voxel_mask sh q)) = 6
    \<and> surface_distances (voxel_mask sh p) (voxel_mask sh q) = Inr 3"
  using assms(3)
proof
  assume o: "q = vadd p (axis_offset 3 i)"
  note f = offset_facts [OF o assms(1) assms(2)]
  show ?thesis
    by (rule two_voxels_at_3 [OF assms(1) assms(2) f(2) f(3) f(1) f(4) f(5) f(6) f(7)])
next
  assume o: "p = vadd q (axis_offset 3 i)"
  note f = offset_facts [OF o assms(2) assms(1)]
  show ?thesis
    by (rule two_voxels_at_3 [OF assms(1) assms(2) f(3) f(2) f(1) [symmetric] f(6) f(7) f(4) f(5)])
qed

theorem unit_cubes_three_apart_witness:
  "inside (6, 7, 8) (1, 2, 3) \<and> inside (6, 7, 8) (1, 5, 3)
   \<and> (1, 5, 3) = vadd (1, 2, 3) (axis_offset 3 1)
   \<and> average_hausdorff_distance (init (1 / 2) 5)
        (to_float (voxel_mask (6, 7, 8) (1, 2, 3))) (to_float (voxel_mask (6, 7, 8) (1, 5, 3))) = 6
   \<and> surface_distances (voxel_mask (6, 7, 8) (1, 2, 3)) (voxel_mask (6, 7, 8) (1, 5, 3)) = Inr 3"
proof -
  have h: "inside (6, 7, 8) (1, 2, 3)" "inside (6, 7, 8) (1, 5, 3)"
    "(1, 5, 3) = vadd (1, 2, 3) (axis_offset 3 1)"
    by (simp_all add: axis_offset_def)
  from unit_cubes_three_apart [OF h(1) h(2) disjI1 [OF h(3)]] h show ?thesis by simp
qed

section \<open>Properties of the displacement courses\<close>

lemma and_then_simps:
  "and_then (Inl e) f = Inl e" "and_then (Inr v) f = f v"
  by (simp_all add: and_then_def)

lemma course_unknown:
  assumes "method \<notin> {''gauss'', ''2step'', ''step'', ''Ustep'', ''sin''}"
  shows "course x0 sigma amplitude method resolution = Inr None"
  using assms by (simp add: course_def)

lemma unbound_after_course:
  "and_then (centre_zero center resolution None) (\<lambda>yopt.
     and_then (fill_axes fp mvt_axes yopt) (\<lambda>fp.
     and_then (read_y yopt) (\<lambda>y. Inr (Arr1 y)))) = Inl (Raised UnboundLocalError)"
proof (cases "center = ''zero''")
  case True
  then show ?thesis by (simp add: centre_zero_def read_y_def and_then_simps)
next
  case False
  then have c: "centre_zero center resolution None = Inr None" by (simp add: centre_zero_def)
  show ?thesis
    unfolding c and_then_simps
    by (cases mvt_axes) (simp_all add: read_y_def and_then_simps)
qed

lemma corrupt_data_unknown:
  assumes "method \<notin> {''gauss'', ''2step'', ''step'', ''Ustep'', ''sin''}"
  shows "corrupt_data x0 sigma amplitude method mvt_axes center resolution
       = Inl (Raised (if resolution < 0 then ValueError else UnboundLocalError))"
  unfolding corrupt_data_def course_unknown [OF assms]
  by (simp add: and_then_simps unbound_after_course)

text \<open>
  Claim C7, as amended. For a method that is none of the five names, \<^verbatim>\<open>corrupt_data\<close> never
  completes: no branch binds \<^verbatim>\<open>y\<close>, and the first read of \<^verbatim>\<open>y\<close> raises Python's
  UnboundLocalError (after a ValueError of \<^verbatim>\<open>np.zeros\<close> when the resolution is negative).
  It does not raise an error of its own.
\<close>

theorem unknown_method_unbound:
  assumes "method \<notin> {''gauss'', ''2step'', ''step'', ''Ustep'', ''sin''}"
  shows "corrupt_data x0 sigma amplitude method mvt_axes center resolution
       = Inl (Raised (if resolution < 0 then ValueError else UnboundLocalError))"
proof -
  have "course x0 sigma amplitude method resolution = Inr None"
    using assms by (simp add: course_def)
  then show ?thesis
    unfolding corrupt_data_def
    by (cases "resolution < 0") (simp_all add: and_then_simps unbound_after_course)
qed

theorem unknown_method_unbound_witness:
  "''triangle'' \<notin> {''gauss'', ''2step'', ''step'', ''Ustep'', ''sin''}
   \<and> corrupt_data 50 (Scalar 5) (Scalar 20) ''triangle'' [1] ''zero'' 200
       = Inl (Raised UnboundLocalError)"
proof -
  have m: "''triangle'' \<notin> {''gauss'', ''2step'', ''step'', ''Ustep'', ''sin''}" by simp
  from unknown_method_unbound [OF m, of 50 "Scalar 5" "Scalar 20" "[1]" "''zero''" 200] m
  show ?thesis by simp
qed

text \<open>
  The claim as first stated names the error InvalidParameter; the call with the method
  \<^verbatim>\<open>triangle\<close> ends with another one.
\<close>

theorem unknown_method_counterexample:
  "corrupt_data 50 (Scalar 5) (Scalar 20) ''triangle'' [1] ''zero'' 200
     = Inl (Raised UnboundLocalError)
   \<and> corrupt_data 50 (Scalar 5) (Scalar 20) ''triangle'' [1] ''zero'' 200
     \<noteq> Inl (Raised InvalidParameter)"
proof -
  have m: "''triangle'' \<notin> {''gauss'', ''2step'', ''step'', ''Ustep'', ''sin''}" by simp
  show ?thesis unfolding corrupt_data_unknown [OF m] by simp
qed

lemma and_then_Inr: "and_then r f = Inr v \<longleftrightarrow> (\<exists>a. r = Inr a \<and> f a = Inr v)"
  by (cases r) (simp_all add: and_then_def)

lemma fill_first_axis:
  assumes "fill_axes (replicate 6 (replicate n 0)) (xx # rest) (Some y) = Inr fp'"
  shows "length y = n \<or> length y = 1"
proof -
  from assms have rng: "\<not> (xx < - 6 \<or> 6 \<le> xx)"
    by (auto simp add: read_y_def and_then_simps split: if_splits)
  then have "nat (xx mod 6) < 6" by simp
  then have row: "replicate 6 (replicate n (0::real)) ! nat (xx mod 6) = replicate n 0"
    by (rule nth_replicate)
  from assms rng have "\<not> (length y \<noteq> length (replicate 6 (replicate n (0::real)) ! nat (xx mod 6))
      \<and> length y \<noteq> 1)"
    by (auto simp add: read_y_def and_then_simps split: if_splits)
  then show ?thesis unfolding row by auto
qed

lemma fill_default_axis:
  assumes "length y = n \<or> length y = 1"
  shows "\<exists>fp'. fill_axes (replicate 6 (replicate n 0)) [1] (Some y) = Inr fp'"
proof -
  have "nat (1 mod 6) < 6" by simp
  then have row: "replicate 6 (replicate n (0::real)) ! nat (1 mod 6) = replicate n 0"
    by (rule nth_replicate)
  show ?thesis
    using assms unfolding fill_axes.simps read_y_def option.case and_then_simps row
    by auto
qed

text \<open>
  Claim C6, as amended. Whenever \<^verbatim>\<open>corrupt_data\<close> completes for a request of more than one
  axis, the returned value is an array of one dimension, the bare course, and it is the
  value returned for the single axis 1: the array of 6 rows is filled and then dropped.
\<close>

theorem returns_bare_course:
  assumes "1 < length mvt_axes"
    and "corrupt_data x0 sigma amplitude method mvt_axes center resolution = Inr r"
  shows "(\<exists>y. r = Arr1 y)
    \<and> corrupt_data x0 sigma amplitude method [1] center resolution = Inr r"
proof -
  from assms(1) obtain xx rest where axes: "mvt_axes = xx # rest" by (cases mvt_axes) auto
  let ?fp = "replicate 6 (replicate (nat resolution) (0::real))"
  from assms(2) obtain yopt yopt' fp' y where
    res: "\<not> resolution < 0"
    and c: "course x0 sigma amplitude method resolution = Inr yopt"
    and z: "centre_zero center resolution yopt = Inr yopt'"
    and f: "fill_axes ?fp mvt_axes yopt' = Inr fp'"
    and y: "read_y yopt' = Inr y" and r: "r = Arr1 y"
    unfolding corrupt_data_def and_then_Inr
    by (auto split: if_splits)
  from y have some: "yopt' = Some y" by (cases yopt') (simp_all add: read_y_def)
  from f have "length y = nat resolution \<or> length y = 1"
    unfolding axes some by (rule fill_first_axis)
  then obtain fp'' where "fill_axes ?fp [1] (Some y) = Inr fp''"
    using fill_default_axis by blast
  then have "corrupt_data x0 sigma amplitude method [1] center resolution = Inr r"
    unfolding corrupt_data_def using res c z y r
    by (simp add: and_then_simps some)
  with r show ?thesis by blast
qed

lemma upto_0_3: "[0..3::int] = [0, 1, 2, 3]"
  by code_simp

lemma ustep_example_course:
  "course 2 (Scalar 2) (Scalar 3) ''Ustep'' 4 = Inr (Some [0, 3, 3, 0])"
  by (simp add: course_def ustep_course_def as_int_def as_real_def and_then_simps slice_bound_def
      Let_def upto_0_3)

lemma ustep_example:
  "corrupt_data 2 (Scalar 2) (Scalar 3) ''Ustep'' [0, 1] ''none'' 4 = Inr (Arr1 [0, 3, 3, 0])"
  unfolding corrupt_data_def ustep_example_course
  by (simp add: and_then_simps centre_zero_def read_y_def)

theorem returns_bare_course_witness:
  "1 < length [0, 1::int]
   \<and> corrupt_data 2 (Scalar 2) (Scalar 3) ''Ustep'' [0, 1] ''none'' 4 = Inr (Arr1 [0, 3, 3, 0])
   \<and> corrupt_data 2 (Scalar 2) (Scalar 3) ''Ustep'' [1] ''none'' 4 = Inr (Arr1 [0, 3, 3, 0])"
proof -
  have l: "1 < length [0, 1::int]" by simp
  from returns_bare_course [OF l ustep_example] l ustep_example show ?thesis by simp
qed

text \<open>
  The claim as first stated expects, for the two axes 0 and 1, the array of 6 rows with the
  course in rows 0 and 1; the call returns the course alone.
\<close>

theorem returns_bare_course_counterexample:
  "corrupt_data 2 (Scalar 2) (Scalar 3) ''Ustep'' [0, 1] ''none'' 4 = Inr (Arr1 [0, 3, 3, 0])
   \<and> corrupt_data 2 (Scalar 2) (Scalar 3) ''Ustep'' [0, 1] ''none'' 4
     \<noteq> Inr (Arr2 [[0, 3, 3, 0], [0, 3, 3, 0], [0, 0, 0, 0], [0, 0, 0, 0], [0, 0, 0, 0],
          [0, 0, 0, 0]])"
  unfolding ustep_example by simp

lemma step_example_course:
  "course 150 (Scalar 5) (Scalar 20) ''step'' 512
     = Inr (Some (replicate 145 0 @ map (\<lambda>i. - (2 * real i)) [0..<11] @ replicate 356 (- 20)))"
  by (simp add: course_def step_course_def as_int_def as_real_def and_then_simps np_full_def
      linspace_def)

lemma step_example_centred:
  "centre_zero ''zero'' 512
      (Some (replicate 145 0 @ map (\<lambda>i. - (2 * real i)) [0..<11] @ replicate 356 (- 20)))
     = Inr (Some (replicate 145 20 @ map (\<lambda>i. 20 - 2 * real i) [0..<11] @ replicate 356 0))"
  by (simp add: centre_zero_def read_y_def item_def and_then_simps nth_append comp_def)

text \<open>
  Claim C5 at the input \<^verbatim>\<open>x0 = 150\<close>, \<^verbatim>\<open>resolution = 512\<close>. The centre index lies in the first
  half of the range, and the course steps down: it starts on the plateau 20 and ends on 0,
  since the branch tests \<^verbatim>\<open>x0 < 100\<close> whatever the resolution is.
\<close>

theorem step_sign_first_half_negative:
  "(150::int) < 512 div 2
   \<and> corrupt_data 150 (Scalar 5) (Scalar 20) ''step'' [1] ''zero'' 512
     = Inr (Arr1 (replicate 145 20 @ map (\<lambda>i. 20 - 2 * real i) [0..<11] @ replicate 356 0))"
  unfolding corrupt_data_def step_example_course
  by (simp add: and_then_simps step_example_centred read_y_def)

section \<open>Properties of the motion simulation\<close>

lemma upt_2: "[0..<2] = [0, 1]"
  by (simp add: numeral_2_eq_2)

lemma twiddle_2:
  "twiddle (Suc (Suc 0)) 0 = 1" "twiddle (Suc (Suc 0)) 1 = - 1" "twiddle (Suc (Suc 0)) (- 1) = - 1"
  by (simp_all add: twiddle_def complex_eq_iff)

lemma ex_ifftshift: "ifftshift [a, b] = [b, a]"
  by (simp add: ifftshift_def)

lemma ex_fftshift: "fftshift [a, b] = [b, a]"
  by (simp add: fftshift_def)

lemma ex_fftn: "fftn [a, b] = [a + b, a - b]"
  by (simp add: fftn_def upt_2 twiddle_2)

lemma ex_ifftn: "ifftn [a, b] = [(a + b) / 2, (a - b) / 2]"
  by (simp add: ifftn_def upt_2 twiddle_2)

lemma ex_arange: "arange (- 1) (1 + 2 / real (length [0, 0::real])) (2 / real (length [0, 0::real] - 1))
    = [- 1, 1]"
  by (simp add: arange_def upt_2)

lemma ex_simu_motion: "simu_motion [0, 0] [1, - 1] True = Inr (RealSignal [1, 1])"
proof -
  have fi: "fftshift (fftn (ifftshift (map complex_of_real [1, - 1]))) = [- 2, 0]"
    by (simp add: ex_ifftshift ex_fftn ex_fftshift)
  have phase: "np_mul (map (\<lambda>k. - \<i> * complex_of_real pi * complex_of_real k) [- 1, 1])
      (map complex_of_real [0, 0]) = Inr [0, 0]"
    by (simp add: np_mul_def)
  have fm: "np_mul [- 2, 0] (map exp [0, 0]) = Inr [- 2, 0]"
    by (simp add: np_mul_def)
  have som: "map cmod (ifftshift (ifftn [- 2, 0])) = [1, 1]"
    by (simp add: ex_ifftn ex_ifftshift)
  show ?thesis
    unfolding simu_motion_def Let_def fi ex_arange phase and_then_simps fm
    by (simp add: som)
qed

text \<open>
  The claim as first stated fails for a signal with a negative entry: with the all-zero
  course the magnitude is returned, and the signal \<open>[1, -1]\<close> comes back as \<open>[1, 1]\<close>.
\<close>

theorem zero_motion_counterexample:
  "simu_motion [0, 0] [1, - 1] True = Inr (RealSignal [1, 1])
   \<and> simu_motion [0, 0] [1, - 1] True \<noteq> Inr (RealSignal [1, - 1])"
  unfolding ex_simu_motion by simp

lemma twiddle_add: "twiddle n (s + t) = twiddle n s * twiddle n t"
  by (simp add: twiddle_def cis_mult add_divide_distrib distrib_left)

lemma twiddle_0: "twiddle n 0 = 1"
  by (simp add: twiddle_def)

lemma cmod_twiddle: "cmod (twiddle n t) = 1"
  by (simp add: twiddle_def)

lemma twiddle_multiple:
  assumes "0 < n"
  shows "twiddle n (int n * q) = 1"
proof -
  have "2 * pi * real_of_int (int n * q) / real n = 2 * pi * real_of_int q"
    using assms by simp
  then show ?thesis by (simp add: twiddle_def)
qed

lemma twiddle_periodic:
  assumes "0 < n"
  shows "twiddle n (t + int n * q) = twiddle n t"
  by (simp only: twiddle_add twiddle_multiple [OF assms] mult_1_right)

lemma twiddle_mod:
  assumes "0 < n"
  shows "twiddle n (- (int (a mod n) * l)) = twiddle n (- (int a * l))"
proof -
  have "int a = int (a mod n) + int n * int (a div n)"
    by (simp only: of_nat_mult [symmetric] of_nat_add [symmetric] of_nat_eq_iff) simp
  then have "- (int (a mod n) * l) = - (int a * l) + int n * (int (a div n) * l)"
    by (simp add: algebra_simps)
  then show ?thesis by (simp only: twiddle_periodic [OF assms])
qed

lemma twiddle_power: "twiddle n t ^ k = twiddle n (int k * t)"
proof -
  have "real k * (2 * pi * real_of_int t / real n) = 2 * pi * real_of_int (int k * t) / real n"
    by (simp add: algebra_simps)
  then show ?thesis by (simp only: twiddle_def DeMoivre)
qed

lemma twiddle_eq_1:
  assumes "0 < n" "twiddle n t = 1"
  shows "int n dvd t"
proof -
  from assms(2) have "cos (2 * pi * real_of_int t / real n) = 1"
    by (simp add: twiddle_def complex_eq_iff)
  then obtain m :: int where "2 * pi * real_of_int t / real n = real_of_int m * 2 * pi"
    unfolding cos_one_2pi_int by blast
  then have "(2 * pi) * (real_of_int t / real n) = (2 * pi) * real_of_int m"
    by (simp add: algebra_simps)
  moreover have "2 * pi \<noteq> (0::real)" by simp
  ultimately have "real_of_int t / real n = real_of_int m"
    by (metis mult_left_cancel)
  then have "real_of_int t = real_of_int m * real n" using assms(1) by (simp add: field_simps)
  then have "real_of_int t = real_of_int (m * int n)" by simp
  then have "t = m * int n" by (simp only: of_int_eq_iff)
  then show ?thesis by simp
qed

lemma twiddle_sum:
  assumes "0 < n"
  shows "(\<Sum>k<n. twiddle n (int k * d)) = (if int n dvd d then of_nat n else 0)"
proof (cases "int n dvd d")
  case True
  then obtain q where "d = int n * q" by (rule dvdE)
  then have "twiddle n (int k * d) = 1" for k
    using twiddle_multiple [OF assms, of "int k * q"] by (simp add: mult.left_commute)
  with True show ?thesis by simp
next
  case False
  with twiddle_eq_1 [OF assms] have ne: "twiddle n d \<noteq> 1" by blast
  have "(\<Sum>k<n. twiddle n (int k * d)) = (\<Sum>k<n. twiddle n d ^ k)"
    by (simp only: twiddle_power)
  also have "\<dots> = (twiddle n d ^ n - 1) / (twiddle n d - 1)"
    by (rule geometric_sum [OF ne])
  also have "twiddle n d ^ n = 1"
    unfolding twiddle_power using twiddle_multiple [OF assms] by simp
  finally show ?thesis using False by simp
qed

lemma sum_list_upt: "(\<Sum>k\<leftarrow>[0..<n]. f k) = (\<Sum>k<n. f k)"
  by (simp add: interv_sum_list_conv_sum_set_nat atLeast0LessThan)

lemma length_fftn: "length (fftn xs) = length xs"
  by (simp add: fftn_def)

lemma length_ifftn: "length (ifftn xs) = length xs"
  by (simp add: ifftn_def)

lemma nth_fftn:
  "k < length xs \<Longrightarrow>
     fftn xs ! k = (\<Sum>l<length xs. xs ! l * twiddle (length xs) (- (int k * int l)))"
  by (simp add: fftn_def sum_list_upt)

lemma nth_ifftn:
  "j < length xs \<Longrightarrow>
     ifftn xs ! j = (\<Sum>k<length xs. xs ! k * twiddle (length xs) (int k * int j))
       / of_nat (length xs)"
  by (simp add: ifftn_def sum_list_upt)

lemma dvd_diff_small:
  assumes "j < n" "l < n"
  shows "int n dvd (int j - int l) \<longleftrightarrow> l = j"
proof
  assume d: "int n dvd (int j - int l)"
  show "l = j"
  proof (rule ccontr)
    assume "l \<noteq> j"
    then have nz: "int j - int l \<noteq> 0" by simp
    from zdvd_imp_le [of "int n" "\<bar>int j - int l\<bar>"] d nz
    have "int n \<le> \<bar>int j - int l\<bar>" by simp
    with assms show False by simp
  qed
next
  assume "l = j"
  then show "int n dvd (int j - int l)" by simp
qed

lemma nth_rotate_fftn:
  assumes "k < length x"
  shows "rotate s (fftn x) ! k
    = (\<Sum>l<length x. x ! l * twiddle (length x) (- (int (s + k) * int l)))"
proof -
  have pos: "0 < length x" using assms by (cases x) simp_all
  have "rotate s (fftn x) ! k = fftn x ! ((s + k) mod length x)"
    using assms by (simp add: nth_rotate length_fftn)
  also have "\<dots> = (\<Sum>l<length x. x ! l
      * twiddle (length x) (- (int ((s + k) mod length x) * int l)))"
    using pos by (intro nth_fftn) simp
  also have "\<dots> = (\<Sum>l<length x. x ! l * twiddle (length x) (- (int (s + k) * int l)))"
    by (simp only: twiddle_mod [OF pos])
  finally show ?thesis .
qed

lemma ifftn_rotate_fftn:
  assumes j: "j < length x"
  shows "ifftn (rotate s (fftn x)) ! j = x ! j * twiddle (length x) (- (int s * int j))"
proof -
  let ?n = "length x"
  let ?tw = "twiddle ?n"
  have pos: "0 < ?n" using j by (cases x) simp_all
  have len: "length (rotate s (fftn x)) = ?n" by (simp add: length_fftn)
  have split: "?tw (- (int (s + k) * int l)) * ?tw (int k * int j)
      = ?tw (- (int s * int l)) * ?tw (int k * (int j - int l))" for k l
  proof -
    have "- (int (s + k) * int l) + int k * int j
        = - (int s * int l) + int k * (int j - int l)"
      by (simp add: algebra_simps)
    then show ?thesis by (simp only: twiddle_add [symmetric])
  qed
  have "(\<Sum>k<?n. rotate s (fftn x) ! k * ?tw (int k * int j))
      = (\<Sum>k<?n. (\<Sum>l<?n. x ! l * ?tw (- (int (s + k) * int l))) * ?tw (int k * int j))"
    by (rule sum.cong [OF refl]) (simp add: nth_rotate_fftn)
  also have "\<dots> = (\<Sum>k<?n. \<Sum>l<?n. x ! l * ?tw (- (int s * int l))
        * ?tw (int k * (int j - int l)))"
    by (simp only: sum_distrib_right mult.assoc split)
  also have "\<dots> = (\<Sum>l<?n. \<Sum>k<?n. x ! l * ?tw (- (int s * int l))
        * ?tw (int k * (int j - int l)))"
    by (rule sum.swap)
  also have "\<dots> = (\<Sum>l<?n. x ! l * ?tw (- (int s * int l))
        * (\<Sum>k<?n. ?tw (int k * (int j - int l))))"
    by (simp only: sum_distrib_left)
  also have "\<dots> = (\<Sum>l<?n. x ! l * ?tw (- (int s * int l))
        * (if l = j then of_nat ?n else 0))"
    by (rule sum.cong [OF refl]) (simp add: twiddle_sum [OF pos] dvd_diff_small [OF j])
  also have "\<dots> = (\<Sum>l<?n. if l = j then x ! j * ?tw (- (int s * int j)) * of_nat ?n else 0)"
    by (rule sum.cong [OF refl]) simp
  also have "\<dots> = x ! j * ?tw (- (int s * int j)) * of_nat ?n"
    using j by (simp add: sum.delta)
  finally have "(\<Sum>k<?n. rotate s (fftn x) ! k * ?tw (int k * int j))
      = x ! j * ?tw (- (int s * int j)) * of_nat ?n" .
  then show ?thesis
    using pos unfolding nth_ifftn [of j "rotate s (fftn x)", unfolded len, OF j] len
    by simp
qed

lemma ifftshift_rotate: "xs \<noteq> [] \<Longrightarrow> ifftshift xs = rotate (length xs div 2) xs"
  by (simp add: ifftshift_def Let_def rotate_drop_take)

lemma fftshift_rotate_even:
  assumes "even (length xs)" "xs \<noteq> []"
  shows "fftshift xs = rotate (length xs div 2) xs"
proof -
  from assms(1) have "length xs - length xs div 2 = length xs div 2" by (auto elim: evenE)
  then show ?thesis using assms(2) by (simp add: fftshift_def Let_def rotate_drop_take)
qed

lemma rotate_half_twice:
  assumes "even (length xs)"
  shows "rotate (length xs div 2) (rotate (length xs div 2) xs) = xs"
proof -
  from assms have "length xs div 2 + length xs div 2 = length xs" by (auto elim: evenE)
  then show ?thesis by (simp add: rotate_rotate)
qed

lemma length_kx:
  assumes "2 \<le> n"
  shows "length (arange (- 1) (1 + 2 / real n) (2 / real (n - 1))) = n"
proof -
  have n: "0 < real n" "0 < real n - 1" "real (n - 1) = real n - 1" using assms by simp_all
  have e: "(1 + 2 / real n - (- 1)) / (2 / real (n - 1)) = real n - 1 / real n"
    unfolding n(3) using n(1,2) by (simp add: field_simps)
  have c: "\<lceil>real n - 1 / real n\<rceil> = int n"
  proof (rule ceiling_unique)
    have "1 / real n < 1" using assms by simp
    then show "real_of_int (int n) - 1 < real n - 1 / real n" by simp
    show "real n - 1 / real n \<le> real_of_int (int n)" using n(1) by simp
  qed
  show ?thesis unfolding arange_def length_map length_upt e c by simp
qed

lemma zip_mult_zeros:
  "length xs = n \<Longrightarrow> map (\<lambda>(x, y). x * y) (zip xs (replicate n (0::complex))) = replicate n 0"
  by (rule nth_equalityI) simp_all

lemma zip_mult_ones:
  "length xs = n \<Longrightarrow> map (\<lambda>(x, y). x * y) (zip xs (replicate n (1::complex))) = xs"
  by (rule nth_equalityI) simp_all

lemma cmod_ifftn_rotate_fftn:
  "map cmod (ifftn (rotate s (fftn x))) = map cmod x"
proof (rule nth_equalityI)
  show "length (map cmod (ifftn (rotate s (fftn x)))) = length (map cmod x)"
    by (simp add: length_ifftn length_fftn)
  fix j assume "j < length (map cmod (ifftn (rotate s (fftn x))))"
  then have j: "j < length x" by (simp add: length_ifftn length_fftn)
  then have "map cmod (ifftn (rotate s (fftn x))) ! j = cmod (ifftn (rotate s (fftn x)) ! j)"
    by (simp add: length_ifftn length_fftn)
  also have "\<dots> = cmod (x ! j)"
    unfolding ifftn_rotate_fftn [OF j] by (simp add: norm_mult cmod_twiddle)
  finally show "map cmod (ifftn (rotate s (fftn x))) ! j = map cmod x ! j"
    using j by simp
qed

lemma magnitude_round_trip:
  assumes "even (length so)" "so \<noteq> []"
  shows "map cmod (ifftshift (ifftn (fftshift (fftn (ifftshift (map complex_of_real so))))))
       = map abs so"
proof -
  let ?h = "length so div 2"
  let ?x = "rotate ?h (map complex_of_real so)"
  have x: "ifftshift (map complex_of_real so) = ?x"
    using assms(2) by (simp add: ifftshift_rotate)
  have fi: "fftshift (fftn ?x) = rotate ?h (fftn ?x)"
    using assms fftshift_rotate_even [of "fftn ?x"] by (simp add: length_fftn fftn_def)
  have ne: "ifftn (rotate ?h (fftn ?x)) \<noteq> []"
    using assms(2) by (simp add: ifftn_def fftn_def)
  have "map cmod (ifftshift (ifftn (rotate ?h (fftn ?x))))
      = rotate ?h (map cmod (ifftn (rotate ?h (fftn ?x))))"
    unfolding ifftshift_rotate [OF ne] by (simp add: length_ifftn length_fftn rotate_map)
  also have "\<dots> = rotate ?h (map cmod ?x)" by (simp only: cmod_ifftn_rotate_fftn)
  also have "\<dots> = rotate ?h (rotate ?h (map abs so))"
    by (simp add: rotate_map comp_def)
  also have "\<dots> = map abs so"
    using rotate_half_twice [of "map abs so"] assms(1) by simp
  finally show ?thesis unfolding x fi .
qed

lemma zero_motion_steps:
  assumes "even (length so)" "so \<noteq> []"
  shows "simu_motion (replicate (length so) 0) so True = Inr (RealSignal (map abs so))"
proof -
  let ?n = "length so"
  let ?fi = "fftshift (fftn (ifftshift (map complex_of_real so)))"
  let ?kx = "arange (- 1) (1 + 2 / real ?n) (2 / real (?n - 1))"
  have n2: "2 \<le> ?n"
  proof -
    from assms(2) have "?n \<noteq> 0" by simp
    moreover from assms(1) have "?n \<noteq> 1" by auto
    ultimately show ?thesis by arith
  qed
  then have n01: "\<not> (?n = 0 \<or> ?n = 1)" by arith
  have lfi: "length ?fi = ?n"
    by (simp add: fftshift_def ifftshift_def Let_def length_fftn)
  have z: "map complex_of_real (replicate ?n 0) = replicate ?n 0" by simp
  have lk: "length (map (\<lambda>k. - \<i> * complex_of_real pi * complex_of_real k) ?kx) = ?n"
    by (simp only: length_map length_kx [OF n2])
  have phase: "np_mul (map (\<lambda>k. - \<i> * complex_of_real pi * complex_of_real k) ?kx)
      (map complex_of_real (replicate ?n 0)) = Inr (replicate ?n 0)"
    unfolding z np_mul_def
    by (simp only: lk length_replicate simp_thms if_True zip_mult_zeros [OF lk])
  have e: "map exp (replicate ?n (0::complex)) = replicate ?n 1" by simp
  have fm: "np_mul ?fi (map exp (replicate ?n 0)) = Inr ?fi"
    unfolding e np_mul_def
    by (simp only: lfi length_replicate simp_thms if_True zip_mult_ones [OF lfi])
  show ?thesis
    unfolding simu_motion_def Let_def length_replicate
    by (simp only: assms(2) n01 if_False phase and_then_simps fm if_True
        magnitude_round_trip [OF assms])
qed

text \<open>
  Claim C3, as amended. For every signal of even length and the all-zero course of the same
  length, \<^verbatim>\<open>simu_motion\<close> with \<^verbatim>\<open>return_abs=True\<close> returns the magnitude of the signal, entry
  by entry; so it returns the signal unchanged when no entry of the signal is negative.
\<close>

theorem zero_motion_magnitude:
  assumes "even (length so)" "so \<noteq> []"
  shows "simu_motion (replicate (length so) 0) so True = Inr (RealSignal (map abs so))
    \<and> ((\<forall>v\<in>set so. 0 \<le> v) \<longrightarrow>
         simu_motion (replicate (length so) 0) so True = Inr (RealSignal so))"
proof -
  have "map abs so = so" if "\<forall>v\<in>set so. 0 \<le> v"
    using that by (induction so) simp_all
  then show ?thesis unfolding zero_motion_steps [OF assms] by simp
qed

theorem zero_motion_magnitude_witness:
  "even (length [1, 2::real]) \<and> [1, 2::real] \<noteq> [] \<and> 0 \<le> (1::real) \<and> 0 \<le> (2::real)
   \<and> simu_motion (replicate (length [1, 2::real]) 0) [1, 2] True = Inr (RealSignal [1, 2])"
proof -
  have h: "even (length [1, 2::real])" "[1, 2::real] \<noteq> []" "\<forall>v\<in>set [1, 2::real]. 0 \<le> v"
    by simp_all
  from zero_motion_magnitude [OF h(1) h(2)] h(3)
  have "simu_motion (replicate (length [1, 2::real]) 0) [1, 2] True = Inr (RealSignal [1, 2])"
    by blast
  then show ?thesis by simp
qed

end
